theory Spec2Isabelle
  imports Complex_Main
begin

section \<open>Waypoint updater node: data model\<close>

text \<open>
  Shallow embedding of \<^verbatim>\<open>waypoint_updater.py\<close>. Python floats are idealised as
  \<^typ>\<open>real\<close> (no rounding, no NaN); Python's unbounded integers are \<^typ>\<open>int\<close>.
  The node's attributes form the record \<open>node\<close>; every callback takes the node and
  returns the updated node together with the exception it raised, if any. What the
  node publishes and logs is appended to the field \<open>trace\<close>, in program order.
  The orientation and time-stamp decoding of \<^verbatim>\<open>pose_cb\<close> computes values that are
  never used and is left out.
\<close>

record point =
  pt_x :: real
  pt_y :: real
  pt_z :: real

record quaternion =
  q_x :: real
  q_y :: real
  q_z :: real
  q_w :: real

record waypoint =
  wp_position :: point
  wp_orientation :: quaternion
  wp_linear_x :: real

record pose_stamped =
  ps_seq :: nat
  ps_position :: point
  ps_orientation :: quaternion

datatype py_error = IndexError | ZeroDivisionError | AttributeError

datatype effect =
    Pub_final_waypoints "waypoint list"
  | Pub_next_waypoint int
  | Pub_tl_distance real
  | Warn_resetting
  | Warn_end_of_range int int int
  | Warn_next_waypoint_problem nat int
  | Info_waypoints nat real

record node =
  wps :: "waypoint list"
  wp_ss :: "real list"
  avg_wp_dist :: "real option"
  prev_pt :: point
  prev_index :: int
  next_pt :: int
  trace :: "effect list"

definition LOOKAHEAD_WPS :: int where
  "LOOKAHEAD_WPS = 240"

definition origin :: point where
  "origin = \<lparr>pt_x = 0, pt_y = 0, pt_z = 0\<rparr>"

text \<open>The attributes set by \<^verbatim>\<open>__init__\<close>; \<^verbatim>\<open>avg_wp_dist\<close> does not exist yet.\<close>

definition init_node :: node where
  "init_node = \<lparr>wps = [], wp_ss = [], avg_wp_dist = None, prev_pt = origin,
                 prev_index = - 1, next_pt = - 1, trace = []\<rparr>"

definition emit :: "effect \<Rightarrow> node \<Rightarrow> node" where
  "emit e st = st\<lparr>trace := trace st @ [e]\<rparr>"

section \<open>Python list primitives\<close>

text \<open>\<^verbatim>\<open>xs[i]\<close>: a negative index counts from the end, out of range raises.\<close>

definition py_get :: "'a list \<Rightarrow> int \<Rightarrow> py_error + 'a" where
  "py_get xs i =
     (let n = int (length xs); j = (if i < 0 then i + n else i)
      in if 0 \<le> j \<and> j < n then Inr (xs ! nat j) else Inl IndexError)"

text \<open>\<^verbatim>\<open>xs[i:j]\<close>: negative bounds count from the end, then both are clipped.\<close>

definition py_clip :: "int \<Rightarrow> int \<Rightarrow> int" where
  "py_clip n i = (if i < 0 then max 0 (i + n) else min i n)"

definition py_slice :: "'a list \<Rightarrow> int \<Rightarrow> int \<Rightarrow> 'a list" where
  "py_slice xs i j =
     (let n = int (length xs); lo = py_clip n i; hi = py_clip n j
      in take (nat (hi - lo)) (drop (nat lo) xs))"

text \<open>\<^verbatim>\<open>range(a, b)\<close>.\<close>

definition py_range :: "int \<Rightarrow> int \<Rightarrow> int list" where
  "py_range a b = [a..b - 1]"

section \<open>Geometry utilities\<close>

definition point_dist_sq :: "point \<Rightarrow> point \<Rightarrow> real" where
  "point_dist_sq a b =
     (let dx = pt_x a - pt_x b; dy = pt_y a - pt_y b; dz = pt_z a - pt_z b
      in dx * dx + dy * dy + dz * dz)"

definition point_dist :: "point \<Rightarrow> point \<Rightarrow> real" where
  "point_dist a b = sqrt (point_dist_sq a b)"

definition waypoint_to_point :: "waypoint \<Rightarrow> point" where
  "waypoint_to_point wp = wp_position wp"

definition pose_to_point :: "pose_stamped \<Rightarrow> point" where
  "pose_to_point pose = ps_position pose"

definition waypoints_to_vec :: "point \<Rightarrow> point \<Rightarrow> real \<times> real" where
  "waypoints_to_vec a b = (pt_x b - pt_x a, pt_y b - pt_y a)"

definition dot_prod :: "real \<times> real \<Rightarrow> real \<times> real \<Rightarrow> real" where
  "dot_prod a b = fst a * fst b + snd a * snd b"

text \<open>The float division raises when \<open>a\<close> and \<open>c\<close> are the same point.\<close>

definition line_ratio :: "point \<Rightarrow> point \<Rightarrow> point \<Rightarrow> py_error + real" where
  "line_ratio a b c =
     (let ac = waypoints_to_vec a c;
          ab = waypoints_to_vec a b;
          da = dot_prod ab ac;
          ac_dist = point_dist a c
      in if ac_dist = 0 then Inl ZeroDivisionError else Inr (da / ac_dist))"

section \<open>Position tracker\<close>

text \<open>The search loop of \<^verbatim>\<open>nearest_waypoint\<close>, carrying \<open>(mini, mindist)\<close>.\<close>

fun nearest_loop :: "waypoint list \<Rightarrow> point \<Rightarrow> int list \<Rightarrow> int \<times> real \<Rightarrow> int \<times> real" where
  "nearest_loop ws ppt [] acc = acc"
| "nearest_loop ws ppt (i # rest) (mini, mindist) =
     (let dsq = point_dist_sq (waypoint_to_point (ws ! nat i)) ppt
      in if mini < 0 \<or> dsq < mindist
         then nearest_loop ws ppt rest (i, dsq)
         else nearest_loop ws ppt rest (mini, mindist))"

text \<open>The index range \<open>rg\<close> that \<^verbatim>\<open>nearest_waypoint\<close> searches, from the sticky index.\<close>

definition search_range :: "nat \<Rightarrow> int \<Rightarrow> int list" where
  "search_range n pidx =
     (if pidx > - 1
      then py_range (max 0 (pidx - 5)) (min (int n) (pidx + 200 + 1))
      else py_range 0 (int n))"

definition nearest_waypoint :: "node \<Rightarrow> pose_stamped \<Rightarrow> node \<times> (py_error + int)" where
  "nearest_waypoint st pose =
     (let ppt = pose_to_point pose;
          prev_dist = point_dist_sq ppt (prev_pt st)
      in case avg_wp_dist st of
           None \<Rightarrow> (st, Inl AttributeError)
         | Some avg \<Rightarrow>
            (let st1 = (if prev_dist > (1 / 2) * avg * 200
                        then (emit Warn_resetting st)\<lparr>prev_index := - 1\<rparr> else st);
                 st2 = st1\<lparr>prev_pt := ppt\<rparr>;
                 rg = search_range (length (wps st2)) (prev_index st2);
                 mini = fst (nearest_loop (wps st2) ppt rg (- 1, 0));
                 st3 = st2\<lparr>prev_index := mini\<rparr>
             in if rg = [] then (st3, Inl IndexError)
                else if mini = hd rg \<or> mini = last rg
                then ((emit (Warn_end_of_range mini (hd rg) (last rg)) st3)\<lparr>prev_index := - 1\<rparr>,
                      Inr mini)
                else (st3, Inr mini)))"

definition next_waypoint :: "node \<Rightarrow> pose_stamped \<Rightarrow> node \<times> (py_error + int)" where
  "next_waypoint st pose =
     (let ept = pose_to_point pose
      in case nearest_waypoint st pose of
           (st1, Inl e) \<Rightarrow> (st1, Inl e)
         | (st1, Inr cur) \<Rightarrow>
            (let nwps = int (length (wps st1))
             in if nwps = 0 \<or> cur < 0 \<or> cur > nwps - 1
                then (emit (Warn_next_waypoint_problem (length (wps st1)) cur) st1, Inr (- 1))
                else
                  (let cpt = waypoint_to_point (wps st1 ! nat cur);
                       prev = (cur + nwps - 1) mod nwps;
                       ppt = waypoint_to_point (wps st1 ! nat prev);
                       nxt = (cur + 1) mod nwps;
                       npt = waypoint_to_point (wps st1 ! nat nxt)
                   in case line_ratio ppt ept npt of
                        Inl e \<Rightarrow> (st1, Inl e)
                      | Inr eratio \<Rightarrow>
                         (case line_ratio ppt cpt npt of
                            Inl e \<Rightarrow> (st1, Inl e)
                          | Inr cratio \<Rightarrow>
                              (st1, Inr (if eratio > cratio then nxt else cur))))))"

section \<open>Lookahead publisher\<close>

text \<open>The slice built by \<^verbatim>\<open>pose_cb\<close> from the track and the next-waypoint index.\<close>

definition lookahead_window :: "waypoint list \<Rightarrow> int \<Rightarrow> waypoint list" where
  "lookahead_window ws np =
     (let wpsz = int (length ws);
          end_pt = np + LOOKAHEAD_WPS;
          past_zero_pt = end_pt - wpsz;
          end_pt2 = min end_pt wpsz;
          lane = py_slice ws np end_pt2
      in if past_zero_pt > 0 then lane @ py_slice ws 0 past_zero_pt else lane)"

definition pose_cb :: "node \<Rightarrow> pose_stamped \<Rightarrow> node \<times> py_error option" where
  "pose_cb st msg =
     (if length (wps st) = 0 then (st, None)
      else if ps_seq msg mod 1 \<noteq> 0 then (st, None)
      else case next_waypoint st msg of
             (st1, Inl e) \<Rightarrow> (st1, Some e)
           | (st1, Inr np) \<Rightarrow>
              (let st2 = st1\<lparr>next_pt := np\<rparr>
               in if np < 0 then (st2, None)
                  else (emit (Pub_next_waypoint np)
                          (emit (Pub_final_waypoints (lookahead_window (wps st2) np)) st2),
                        None)))"

section \<open>Track model\<close>

text \<open>The arc-length loop of \<^verbatim>\<open>waypoints_cb\<close>, carrying \<open>(s, prev_pt)\<close> and returning
  the entries it appends.\<close>

fun arc_loop :: "waypoint list \<Rightarrow> nat list \<Rightarrow> real \<Rightarrow> point \<Rightarrow> real list" where
  "arc_loop ws [] s prev = []"
| "arc_loop ws (i # rest) s prev =
     (let cur_pt = waypoint_to_point (ws ! (i mod length ws));
          d = point_dist prev cur_pt;
          s2 = s + d
      in s2 # arc_loop ws rest s2 cur_pt)"

text \<open>The accumulation loop for the average spacing, over \<^verbatim>\<open>range(1, len(self.wps))\<close>.\<close>

fun gap_loop :: "waypoint list \<Rightarrow> nat list \<Rightarrow> real \<Rightarrow> real" where
  "gap_loop ws [] a = a"
| "gap_loop ws (i # rest) a =
     gap_loop ws rest
       (a + point_dist (waypoint_to_point (ws ! i)) (waypoint_to_point (ws ! (i - 1))))"

definition waypoints_cb :: "node \<Rightarrow> waypoint list \<Rightarrow> node \<times> py_error option" where
  "waypoints_cb st ws =
     (if length ws = length (wps st) then (st, None)
      else
        (let st1 = st\<lparr>wps := ws\<rparr>
         in case ws of
              [] \<Rightarrow> (st1, Some IndexError)
            | w0 # _ \<Rightarrow>
               (let st2 = st1\<lparr>wp_ss := wp_ss st1 @
                             arc_loop ws [0..<length ws + 1] 0 (waypoint_to_point w0)\<rparr>;
                    total = gap_loop ws [1..<length ws] 0;
                    st3 = st2\<lparr>avg_wp_dist := Some total\<rparr>
                in if int (length ws) - 1 = 0 then (st3, Some ZeroDivisionError)
                   else
                     (let avg = total / real_of_int (int (length ws) - 1);
                          st4 = st3\<lparr>avg_wp_dist := Some avg\<rparr>
                      in (emit (Info_waypoints (length ws) avg) st4, None)))))"

section \<open>Traffic-light distance relay\<close>

definition traffic_cb :: "node \<Rightarrow> int \<Rightarrow> node \<times> py_error option" where
  "traffic_cb st data =
     (let sgn = (if data < 0 then - 1 else 1);
          next_tl = (if data < 0 then data * (- 1) else data)
      in if next_pt st \<ge> 0 \<and> next_tl \<ge> 0
         then
           (let sz = int (length (wps st))
            in case py_get (wp_ss st) next_tl of
                 Inl e \<Rightarrow> (st, Some e)
               | Inr a \<Rightarrow>
                  (case py_get (wp_ss st) (next_pt st) of
                     Inl e \<Rightarrow> (st, Some e)
                   | Inr b \<Rightarrow>
                      (let dist = a - b
                       in if dist < 0
                          then (case py_get (wp_ss st) sz of
                                  Inl e \<Rightarrow> (st, Some e)
                                | Inr c \<Rightarrow> (emit (Pub_tl_distance (real_of_int sgn * (dist + c))) st, None))
                          else (emit (Pub_tl_distance (real_of_int sgn * dist)) st, None))))
         else (emit (Pub_tl_distance (real_of_int sgn * (- 1))) st, None))"

section \<open>Auxiliary notions for the statements\<close>

text \<open>Squared distance from waypoint \<open>i\<close> of the track to the query point, as the
  search loop computes it.\<close>

definition dsq_at :: "waypoint list \<Rightarrow> point \<Rightarrow> int \<Rightarrow> real" where
  "dsq_at ws ppt i = point_dist_sq (waypoint_to_point (ws ! nat i)) ppt"

text \<open>The loop length in the words of the specification: the sum of the distances of
  all consecutive pairs of waypoints, the pair from the last waypoint back to the
  first included.\<close>

definition loop_length :: "waypoint list \<Rightarrow> real" where
  "loop_length ws =
     (\<Sum>i < length ws. point_dist (waypoint_to_point (ws ! i))
                          (waypoint_to_point (ws ! ((i + 1) mod length ws))))"

text \<open>
  The states the node can be in: it starts from \<^verbatim>\<open>__init__\<close> and serves one message
  at a time. rospy logs an exception raised by a callback and goes on with the next
  message, so the node left behind by a failed callback is a state too. The payload
  of \<^verbatim>\<open>/traffic_waypoint\<close> is an Int32.
\<close>

inductive reachable :: "node \<Rightarrow> bool" where
  reach_init: "reachable init_node"
| reach_pose: "reachable st \<Longrightarrow> reachable (fst (pose_cb st msg))"
| reach_track: "reachable st \<Longrightarrow> reachable (fst (waypoints_cb st ws))"
| reach_light: "reachable st \<Longrightarrow> - (2 ^ 31) \<le> d \<Longrightarrow> d < 2 ^ 31 \<Longrightarrow>
     reachable (fst (traffic_cb st d))"

text \<open>The states before any track has been loaded: only pose and traffic-light
  messages have arrived.\<close>

inductive unloaded :: "node \<Rightarrow> bool" where
  un_init: "unloaded init_node"
| un_pose: "unloaded st \<Longrightarrow> unloaded (fst (pose_cb st msg))"
| un_light: "unloaded st \<Longrightarrow> - (2 ^ 31) \<le> d \<Longrightarrow> d < 2 ^ 31 \<Longrightarrow>
     unloaded (fst (traffic_cb st d))"

section \<open>Example tracks and poses\<close>

definition wp_at :: "real \<Rightarrow> real \<Rightarrow> waypoint" where
  "wp_at a b = \<lparr>wp_position = \<lparr>pt_x = a, pt_y = b, pt_z = 0\<rparr>,
               wp_orientation = \<lparr>q_x = 0, q_y = 0, q_z = 0, q_w = 1\<rparr>,
               wp_linear_x = 0\<rparr>"

definition pose_at :: "real \<Rightarrow> real \<Rightarrow> pose_stamped" where
  "pose_at a b = \<lparr>ps_seq = 0, ps_position = \<lparr>pt_x = a, pt_y = b, pt_z = 0\<rparr>,
                 ps_orientation = \<lparr>q_x = 0, q_y = 0, q_z = 0, q_w = 1\<rparr>\<rparr>"

text \<open>Collinear waypoints at \<open>x = 0, 1, 2\<close> and at \<open>x = 0, 1, 2, 3\<close>.\<close>

definition line3 :: "waypoint list" where
  "line3 = [wp_at 0 0, wp_at 1 0, wp_at 2 0]"

definition line4 :: "waypoint list" where
  "line4 = [wp_at 0 0, wp_at 1 0, wp_at 2 0, wp_at 3 0]"

text \<open>A rectangle of 400 by 100, sampled so that the arc lengths are
  0, 50, 400, 500, 900, 950 and the loop is 1000 long.\<close>

definition rect6 :: "waypoint list" where
  "rect6 = [wp_at 0 0, wp_at 50 0, wp_at 400 0, wp_at 400 100, wp_at 0 100, wp_at 0 50]"

text \<open>The nodes obtained by loading these tracks into a fresh node, and by serving
  one pose message after that.\<close>

definition line3_node :: node where
  "line3_node = fst (waypoints_cb init_node line3)"

definition line4_node :: node where
  "line4_node = fst (waypoints_cb init_node line4)"

definition line4_tracked :: node where
  "line4_tracked = fst (pose_cb line4_node (pose_at (8 / 5) 0))"

definition rect6_node :: node where
  "rect6_node = fst (waypoints_cb init_node rect6)"

definition rect6_tracked :: node where
  "rect6_tracked = fst (pose_cb rect6_node (pose_at 0 60))"

text \<open>A straight track of 300 waypoints at \<open>x = 0, 1, ..., 299\<close>, loaded into a fresh
  node.\<close>

definition track300 :: "waypoint list" where
  "track300 = map (\<lambda>i. wp_at (real i) 0) [0..<300]"

definition track300_node :: node where
  "track300_node = fst (waypoints_cb init_node track300)"

text \<open>The node after one pose message at \<open>x = 199.6\<close> on the 300-waypoint track, and
  that node after the 3-waypoint track is loaded over the held one: the tracker's
  state is kept across the load.\<close>

definition track300_tracked :: node where
  "track300_tracked = fst (pose_cb track300_node (pose_at (998 / 5) 0))"

definition track300_reloaded :: node where
  "track300_reloaded = fst (waypoints_cb track300_tracked line3)"

text \<open>The node after an empty track message arrives over the held 4-waypoint track.\<close>

definition line4_emptied :: node where
  "line4_emptied = fst (waypoints_cb line4_node [])"

section \<open>Frame properties of the callbacks\<close>

lemma nearest_waypoint_frame_wps:
  "wps (fst (nearest_waypoint st pose)) = wps st"
  by (simp add: nearest_waypoint_def emit_def Let_def split: option.splits)

lemma nearest_waypoint_frame:
  "wp_ss (fst (nearest_waypoint st pose)) = wp_ss st \<and>
   avg_wp_dist (fst (nearest_waypoint st pose)) = avg_wp_dist st \<and>
   next_pt (fst (nearest_waypoint st pose)) = next_pt st"
  by (simp add: nearest_waypoint_def emit_def Let_def split: option.splits)

lemma next_waypoint_frame:
  "wps (fst (next_waypoint st pose)) = wps st \<and>
   wp_ss (fst (next_waypoint st pose)) = wp_ss st \<and>
   avg_wp_dist (fst (next_waypoint st pose)) = avg_wp_dist st \<and>
   next_pt (fst (next_waypoint st pose)) = next_pt st"
  using nearest_waypoint_frame [of st pose] nearest_waypoint_frame_wps [of st pose]
  by (auto simp add: next_waypoint_def emit_def Let_def split: prod.splits sum.splits)

lemma pose_cb_frame:
  "wps (fst (pose_cb st msg)) = wps st \<and>
   wp_ss (fst (pose_cb st msg)) = wp_ss st \<and>
   avg_wp_dist (fst (pose_cb st msg)) = avg_wp_dist st"
  using next_waypoint_frame [of st msg]
  by (auto simp add: pose_cb_def emit_def Let_def split: prod.splits sum.splits)

lemma traffic_cb_frame:
  "wps (fst (traffic_cb st d)) = wps st \<and>
   wp_ss (fst (traffic_cb st d)) = wp_ss st \<and>
   avg_wp_dist (fst (traffic_cb st d)) = avg_wp_dist st \<and>
   next_pt (fst (traffic_cb st d)) = next_pt st"
  by (simp add: traffic_cb_def emit_def Let_def split: sum.splits)

lemma length_arc_loop: "length (arc_loop ws is s p) = length is"
  by (induction "is" arbitrary: s p) (simp_all add: Let_def)

lemma py_get_in: "0 \<le> i \<Longrightarrow> i < int (length xs) \<Longrightarrow> py_get xs i = Inr (xs ! nat i)"
  by (simp add: py_get_def)

lemma py_get_out: "int (length xs) \<le> i \<Longrightarrow> py_get xs i = Inl IndexError"
  by (simp add: py_get_def)


lemma py_slice_from:
  assumes "0 \<le> i" and "i \<le> j" and "j \<le> int (length xs)"
  shows "py_slice xs i j = take (nat (j - i)) (drop (nat i) xs)"
  using assms by (simp add: py_slice_def py_clip_def Let_def min_def)

lemma py_slice_prefix:
  assumes "0 < j"
  shows "py_slice xs 0 j = take (nat j) xs"
proof (cases "j \<le> int (length xs)")
  case True
  with assms show ?thesis by (simp add: py_slice_def py_clip_def Let_def min_def)
next
  case False
  with assms show ?thesis by (simp add: py_slice_def py_clip_def Let_def min_def)
qed

lemma lookahead_window_eq:
  assumes "0 \<le> np" and "np < int (length ws)"
  shows "lookahead_window ws np =
           take 240 (drop (nat np) ws) @ take (nat np + 240 - length ws) ws"
proof (cases "np + 240 - int (length ws) > 0")
  case True
  then have a: "min (np + 240) (int (length ws)) = int (length ws)" by simp
  have b: "py_slice ws np (int (length ws)) = take (nat (int (length ws) - np)) (drop (nat np) ws)"
    using assms by (intro py_slice_from) simp_all
  have c: "take (nat (int (length ws) - np)) (drop (nat np) ws) = take 240 (drop (nat np) ws)"
    using True assms by simp
  have d: "nat (np + 240 - int (length ws)) = nat np + 240 - length ws"
    using True assms by linarith
  show ?thesis
    using True a b c d by (simp add: lookahead_window_def LOOKAHEAD_WPS_def Let_def py_slice_prefix)
next
  case False
  then have a: "min (np + 240) (int (length ws)) = np + 240" by simp
  have b: "py_slice ws np (np + 240) = take (nat (np + 240 - np)) (drop (nat np) ws)"
    using assms False by (intro py_slice_from) simp_all
  have d: "nat np + 240 - length ws = 0"
    using False assms by linarith
  show ?thesis
    using False a b d by (simp add: lookahead_window_def LOOKAHEAD_WPS_def Let_def)
qed

lemma length_window:
  assumes "n < length ws"
  shows "length (take 240 (drop n ws) @ take (n + 240 - length ws) ws)
         = min 240 (length ws - n) + min (length ws) (n + 240 - length ws)"
  by (simp add: min.commute)

lemma nth_window:
  assumes "n < length ws"
    and "i < length (take 240 (drop n ws) @ take (n + 240 - length ws) ws)"
  shows "(take 240 (drop n ws) @ take (n + 240 - length ws) ws) ! i = ws ! ((n + i) mod length ws)"
proof -
  let ?A = "take 240 (drop n ws)"
  let ?B = "take (n + 240 - length ws) ws"
  have l1: "length ?A = min (length ws - n) 240" by simp
  have l2: "length ?B = min (length ws) (n + 240 - length ws)" by simp
  have lt: "i < length ?A + length ?B" using assms(2) by simp
  show ?thesis
  proof (cases "i < length ?A")
    case True
    with l1 have "i < length ws - n" by arith
    then have "n + i < length ws" by linarith
    then have "(n + i) mod length ws = n + i" by simp
    moreover have "?A ! i = ws ! (n + i)"
      using True assms(1) by simp
    ultimately show ?thesis using True by (simp only: nth_append if_True)
  next
    case False
    with l1 lt l2 have full: "length ?A = length ws - n" by arith
    from False full have ge2: "length ws - n \<le> i" by arith
    from lt full l2 have lt2: "i - (length ws - n) < length ?B" using ge2 by arith
    from lt2 l2 have lt3: "i - (length ws - n) < length ws" by arith
    have "n + i - length ws < length ws" using lt3 ge2 assms(1) by arith
    moreover have "length ws \<le> n + i" using ge2 assms(1) by arith
    ultimately have m: "(n + i) mod length ws = n + i - length ws"
      by (metis le_mod_geq mod_less)
    have e: "i - length ?A = n + i - length ws"
      using full ge2 assms(1) by arith
    have "(?A @ ?B) ! i = ?B ! (i - length ?A)"
      using False by (simp only: nth_append if_False)
    also have "\<dots> = ws ! (i - length ?A)"
      using lt2 full by simp
    finally show ?thesis using m e by simp
  qed
qed

lemma next_waypoint_range:
  assumes "next_waypoint st pose = (st1, Inr np)"
  shows "wps st1 = wps st \<and> (np = - 1 \<or> (0 \<le> np \<and> np < int (length (wps st))))"
proof -
  obtain s r where nw: "nearest_waypoint st pose = (s, r)" by (cases "nearest_waypoint st pose")
  have fr: "wps s = wps st"
    using nw nearest_waypoint_frame_wps [of st pose] by simp
  show ?thesis
    using assms nw fr
    by (auto simp add: next_waypoint_def Let_def emit_def split: sum.splits if_splits)
qed


lemma nearest_loop_inv:
  assumes "\<forall>i \<in> set rg. 0 \<le> i"
    and "0 \<le> mini \<longrightarrow> mindist = dsq_at ws ppt mini"
    and "nearest_loop ws ppt rg (mini, mindist) = (m, d)"
  shows "(m = mini \<and> d = mindist \<and> (0 \<le> mini \<or> rg = []) \<or> m \<in> set rg \<and> d = dsq_at ws ppt m)
       \<and> (0 \<le> mini \<longrightarrow> d \<le> mindist)
       \<and> (\<forall>j \<in> set rg. d \<le> dsq_at ws ppt j)"
  using assms
proof (induction rg arbitrary: mini mindist)
  case Nil
  then show ?case by simp
next
  case (Cons i rest)
  show ?case
  proof (cases "mini < 0 \<or> dsq_at ws ppt i < mindist")
    case True
    then have step: "nearest_loop ws ppt rest (i, dsq_at ws ppt i) = (m, d)"
      using Cons.prems(3) by (simp add: dsq_at_def Let_def)
    have "0 \<le> i" using Cons.prems(1) by simp
    have ih: "(m = i \<and> d = dsq_at ws ppt i \<and> (0 \<le> i \<or> rest = []) \<or> m \<in> set rest \<and> d = dsq_at ws ppt m)
       \<and> (0 \<le> i \<longrightarrow> d \<le> dsq_at ws ppt i)
       \<and> (\<forall>j \<in> set rest. d \<le> dsq_at ws ppt j)"
      using Cons.IH [of i "dsq_at ws ppt i"] Cons.prems(1) step by simp
    with \<open>0 \<le> i\<close> True show ?thesis by auto
  next
    case False
    then have step: "nearest_loop ws ppt rest (mini, mindist) = (m, d)"
      using Cons.prems(3) by (simp add: dsq_at_def Let_def)
    have ih: "(m = mini \<and> d = mindist \<and> (0 \<le> mini \<or> rest = []) \<or> m \<in> set rest \<and> d = dsq_at ws ppt m)
       \<and> (0 \<le> mini \<longrightarrow> d \<le> mindist)
       \<and> (\<forall>j \<in> set rest. d \<le> dsq_at ws ppt j)"
      using Cons.IH [of mini mindist] Cons.prems(1,2) step by simp
    with False show ?thesis by auto
  qed
qed

lemma waypoints_cb_table:
  assumes "wp_ss st = [] \<and> wps st = [] \<or> length (wps st) < length (wp_ss st)"
  shows "wp_ss (fst (waypoints_cb st ws)) = [] \<and> wps (fst (waypoints_cb st ws)) = []
         \<or> length (wps (fst (waypoints_cb st ws))) < length (wp_ss (fst (waypoints_cb st ws)))"
proof (cases "length ws = length (wps st)")
  case True
  with assms show ?thesis by (simp add: waypoints_cb_def)
next
  case False
  show ?thesis
  proof (cases ws)
    case Nil
    with False assms show ?thesis by (auto simp add: waypoints_cb_def)
  next
    case (Cons w0 rest)
    with False show ?thesis
      by (simp add: waypoints_cb_def Let_def emit_def length_arc_loop)
  qed
qed

lemma waypoints_cb_avg:
  assumes "wps st \<noteq> [] \<longrightarrow> avg_wp_dist st \<noteq> None"
  shows "wps (fst (waypoints_cb st ws)) \<noteq> [] \<longrightarrow> avg_wp_dist (fst (waypoints_cb st ws)) \<noteq> None"
proof (cases "length ws = length (wps st)")
  case True
  with assms show ?thesis by (simp add: waypoints_cb_def)
next
  case False
  then show ?thesis
    by (cases ws) (simp_all add: waypoints_cb_def Let_def emit_def)
qed

lemma reachable_table:
  "reachable st \<Longrightarrow>
     (wp_ss st = [] \<and> wps st = [] \<or> length (wps st) < length (wp_ss st))
     \<and> (wps st \<noteq> [] \<longrightarrow> avg_wp_dist st \<noteq> None)"
proof (induction rule: reachable.induct)
  case reach_init
  show ?case by (simp add: init_node_def)
next
  case (reach_pose st msg)
  then show ?case using pose_cb_frame [of st msg] by simp
next
  case (reach_track st ws)
  then show ?case using waypoints_cb_table [of st ws] waypoints_cb_avg [of st ws] by blast
next
  case (reach_light st d)
  then show ?case using traffic_cb_frame [of st d] by simp
qed

lemma unloaded_fresh:
  "unloaded st \<Longrightarrow> wps st = [] \<and> wp_ss st = [] \<and> next_pt st = - 1"
proof (induction rule: unloaded.induct)
  case un_init
  show ?case by (simp add: init_node_def)
next
  case (un_pose st msg)
  then show ?case by (simp add: pose_cb_def)
next
  case (un_light st d)
  then show ?case using traffic_cb_frame [of st d] by simp
qed

lemma unloaded_reachable: "unloaded st \<Longrightarrow> reachable st"
  by (induction rule: unloaded.induct) (auto intro: reachable.intros)

section \<open>Position tracker: the search\<close>

lemma py_range_set: "set (py_range a b) = {a..<b}"
  by (auto simp add: py_range_def)

lemma py_range_empty: "py_range a b = [] \<longleftrightarrow> b \<le> a"
  by (auto simp add: py_range_def)

lemma py_range_hd: "a < b \<Longrightarrow> hd (py_range a b) = a"
  by (simp add: py_range_def upto_rec1)

lemma py_range_last: "a < b \<Longrightarrow> last (py_range a b) = b - 1"
  by (simp add: py_range_def upto_rec2)

text \<open>The bounds of the searched range: first index and one past the last.\<close>

lemma search_range_eq:
  "search_range n p = py_range (if p > - 1 then max 0 (p - 5) else 0)
                               (if p > - 1 then min (int n) (p + 200 + 1) else int n)"
  by (simp add: search_range_def)

lemma search_range_nonneg: "\<forall>i \<in> set (search_range n p). 0 \<le> i"
  by (auto simp add: search_range_def py_range_set)

lemma nearest_loop_start:
  assumes "rg \<noteq> []" and "\<forall>i \<in> set rg. 0 \<le> i"
  shows "fst (nearest_loop ws ppt rg (- 1, 0)) \<in> set rg
       \<and> (\<forall>j \<in> set rg. dsq_at ws ppt (fst (nearest_loop ws ppt rg (- 1, 0))) \<le> dsq_at ws ppt j)"
proof -
  obtain m d where md: "nearest_loop ws ppt rg (- 1, 0) = (m, d)"
    by (cases "nearest_loop ws ppt rg (- 1, 0)")
  have "(m = - 1 \<and> d = 0 \<and> (0 \<le> (- 1 :: int) \<or> rg = []) \<or> m \<in> set rg \<and> d = dsq_at ws ppt m)
       \<and> (0 \<le> (- 1 :: int) \<longrightarrow> d \<le> 0)
       \<and> (\<forall>j \<in> set rg. d \<le> dsq_at ws ppt j)"
    using nearest_loop_inv [of rg "- 1" 0 ws ppt m d] assms(2) md by simp
  with assms(1) md show ?thesis by auto
qed

text \<open>The sticky index the search starts from, after the jump check.\<close>

lemma nearest_waypoint_unfold:
  assumes "avg_wp_dist st = Some avg"
    and "p = (if point_dist_sq (pose_to_point pose) (prev_pt st) > (1 / 2) * avg * 200
              then - 1 else prev_index st)"
    and "rg = search_range (length (wps st)) p"
    and "m = fst (nearest_loop (wps st) (pose_to_point pose) rg (- 1, 0))"
  shows "snd (nearest_waypoint st pose) = (if rg = [] then Inl IndexError else Inr m)"
    and "rg \<noteq> [] \<Longrightarrow>
           prev_index (fst (nearest_waypoint st pose)) = (if m = hd rg \<or> m = last rg then - 1 else m)"
    and "prev_pt (fst (nearest_waypoint st pose)) = pose_to_point pose"
    and "point_dist_sq (pose_to_point pose) (prev_pt st) > (1 / 2) * avg * 200 \<Longrightarrow>
           Warn_resetting \<in> set (trace (fst (nearest_waypoint st pose)))"
  using assms by (simp_all add: nearest_waypoint_def emit_def Let_def)


section \<open>The arc-length table of the first load\<close>

lemma point_dist_nonneg: "0 \<le> point_dist a b"
  by (simp add: point_dist_def point_dist_sq_def Let_def)

lemma point_dist_self: "point_dist a a = 0"
  by (simp add: point_dist_def point_dist_sq_def)

text \<open>Step \<open>i\<close> of the loop adds the distance from waypoint \<open>(i - 1) mod len\<close> to waypoint
  \<open>i mod len\<close>; at \<open>i = 0\<close> both are waypoint 0.\<close>

lemma arc_loop_upt:
  "arc_loop ws [k..<m] s (waypoint_to_point (ws ! ((k - 1) mod length ws))) =
     map (\<lambda>j. s + (\<Sum>i = k..j. point_dist (waypoint_to_point (ws ! ((i - 1) mod length ws)))
                                         (waypoint_to_point (ws ! (i mod length ws)))))
         [k..<m]"
proof (induction "m - k" arbitrary: k s)
  case 0
  then show ?case by simp
next
  case (Suc d)
  then have km: "k < m" and d: "d = m - Suc k" by simp_all
  let ?D = "\<lambda>i. point_dist (waypoint_to_point (ws ! ((i - 1) mod length ws)))
                            (waypoint_to_point (ws ! (i mod length ws)))"
  have ih: "arc_loop ws [Suc k..<m] (s + ?D k) (waypoint_to_point (ws ! ((Suc k - 1) mod length ws))) =
     map (\<lambda>j. (s + ?D k) + (\<Sum>i = Suc k..j. ?D i)) [Suc k..<m]"
    using Suc.hyps(1) [OF d] .
  have step: "\<And>j. j \<in> set [Suc k..<m] \<Longrightarrow> (s + ?D k) + (\<Sum>i = Suc k..j. ?D i) = s + (\<Sum>i = k..j. ?D i)"
  proof -
    fix j assume "j \<in> set [Suc k..<m]"
    then have "k \<le> j" by simp
    then show "(s + ?D k) + (\<Sum>i = Suc k..j. ?D i) = s + (\<Sum>i = k..j. ?D i)"
      by (simp add: sum.atLeast_Suc_atMost)
  qed
  have "arc_loop ws [k..<m] s (waypoint_to_point (ws ! ((k - 1) mod length ws)))
        = (s + ?D k) # arc_loop ws [Suc k..<m] (s + ?D k) (waypoint_to_point (ws ! (k mod length ws)))"
    using km by (simp add: upt_rec [of k m] Let_def)
  also have "\<dots> = (s + ?D k) # map (\<lambda>j. (s + ?D k) + (\<Sum>i = Suc k..j. ?D i)) [Suc k..<m]"
    using ih by simp
  also have "\<dots> = (s + ?D k) # map (\<lambda>j. s + (\<Sum>i = k..j. ?D i)) [Suc k..<m]"
    using step by (simp cong: map_cong)
  also have "\<dots> = map (\<lambda>j. s + (\<Sum>i = k..j. ?D i)) [k..<m]"
    using km by (simp add: upt_rec [of k m])
  finally show ?case .
qed

lemma arc_loop_table:
  assumes "ws \<noteq> []"
  shows "arc_loop ws [0..<length ws + 1] 0 (waypoint_to_point (hd ws)) =
     map (\<lambda>j. \<Sum>i = 0..j. point_dist (waypoint_to_point (ws ! ((i - 1) mod length ws)))
                                  (waypoint_to_point (ws ! (i mod length ws))))
         [0..<length ws + 1]"
proof -
  have "hd ws = ws ! ((0 - 1) mod length ws)" using assms by (simp add: hd_conv_nth)
  then show ?thesis using arc_loop_upt [of ws 0 "length ws + 1" 0] by simp
qed

lemma arc_loop_sorted:
  assumes "ws \<noteq> []"
  shows "sorted (arc_loop ws [0..<length ws + 1] 0 (waypoint_to_point (hd ws)))"
proof -
  define D where "D = (\<lambda>i. point_dist (waypoint_to_point (ws ! ((i - 1) mod length ws)))
                            (waypoint_to_point (ws ! (i mod length ws))))"
  have nn: "\<And>i. 0 \<le> D i" by (simp add: D_def point_dist_nonneg)
  have mono: "\<And>a b. a \<le> b \<Longrightarrow> (\<Sum>i = 0..a. D i) \<le> (\<Sum>i = 0..b. D i)"
    by (rule sum_mono2) (auto simp add: nn)
  have "arc_loop ws [0..<length ws + 1] 0 (waypoint_to_point (hd ws)) =
          map (\<lambda>j. \<Sum>i = 0..j. D i) [0..<length ws + 1]"
    unfolding D_def by (rule arc_loop_table [OF assms])
  moreover have "sorted (map (\<lambda>j. \<Sum>i = 0..j. D i) [0..<length ws + 1])"
    by (simp only: sorted_iff_nth_mono length_map length_upt)
       (auto simp add: nth_append mono simp del: upt_Suc)
  ultimately show ?thesis by simp
qed

lemma arc_loop_last:
  assumes "ws \<noteq> []"
  shows "arc_loop ws [0..<length ws + 1] 0 (waypoint_to_point (hd ws)) ! length ws = loop_length ws"
proof -
  let ?n = "length ws"
  define D where "D = (\<lambda>i. point_dist (waypoint_to_point (ws ! ((i - 1) mod length ws)))
                            (waypoint_to_point (ws ! (i mod length ws))))"
  have tbl: "arc_loop ws [0..<?n + 1] 0 (waypoint_to_point (hd ws)) =
          map (\<lambda>j. \<Sum>i = 0..j. D i) [0..<?n + 1]"
    unfolding D_def by (rule arc_loop_table [OF assms])
  have "arc_loop ws [0..<?n + 1] 0 (waypoint_to_point (hd ws)) ! ?n = (\<Sum>i = 0..?n. D i)"
    unfolding tbl by (simp del: upt_Suc)
  also have "\<dots> = D 0 + (\<Sum>i = Suc 0..?n. D i)"
    by (simp add: sum.atLeast_Suc_atMost)
  also have "D 0 = 0"
    by (simp add: D_def point_dist_self)
  also have "(\<Sum>i = Suc 0..?n. D i) = (\<Sum>i \<in> {Suc 0..<Suc ?n}. D i)"
    by (simp only: atLeastLessThanSuc_atLeastAtMost)
  also have "\<dots> = (\<Sum>i \<in> {0..<?n}. D (Suc i))"
    by (rule sum.shift_bounds_Suc_ivl)
  also have "\<dots> = (\<Sum>i < ?n. point_dist (waypoint_to_point (ws ! i))
                          (waypoint_to_point (ws ! ((i + 1) mod ?n))))"
    by (rule sum.cong) (auto simp add: lessThan_atLeast0 D_def)
  finally show ?thesis by (simp add: loop_length_def)
qed

text \<open>The first load of the node (empty table) leaves the table of the
  specification, also when the callback then fails at the division.\<close>

lemma first_load_table:
  assumes "wp_ss st = []" and "length ws \<noteq> length (wps st)" and "ws \<noteq> []"
  shows "wps (fst (waypoints_cb st ws)) = ws
       \<and> length (wp_ss (fst (waypoints_cb st ws))) = length ws + 1
       \<and> sorted (wp_ss (fst (waypoints_cb st ws)))
       \<and> wp_ss (fst (waypoints_cb st ws)) ! length ws = loop_length ws"
proof -
  obtain w0 rest where c: "ws = w0 # rest" using assms(3) by (cases ws) auto
  have t: "wp_ss (fst (waypoints_cb st ws)) =
             arc_loop ws [0..<length ws + 1] 0 (waypoint_to_point (hd ws))"
    and w: "wps (fst (waypoints_cb st ws)) = ws"
    using assms(1,2) unfolding waypoints_cb_def Let_def by (simp_all add: c emit_def)
  show ?thesis
    unfolding t using w arc_loop_sorted [OF assms(3)] arc_loop_last [OF assms(3)]
    by (simp add: length_arc_loop del: upt_Suc)
qed

section \<open>Evaluating the examples\<close>

lemma point_dist_same_y:
  "point_dist \<lparr>pt_x = a, pt_y = b, pt_z = c\<rparr> \<lparr>pt_x = a', pt_y = b, pt_z = c\<rparr> = \<bar>a - a'\<bar>"
  by (simp add: point_dist_def point_dist_sq_def Let_def)

lemma point_dist_same_x:
  "point_dist \<lparr>pt_x = a, pt_y = b, pt_z = c\<rparr> \<lparr>pt_x = a, pt_y = b', pt_z = c\<rparr> = \<bar>b - b'\<bar>"
  by (simp add: point_dist_def point_dist_sq_def Let_def)

lemmas load_eval = waypoints_cb_def init_node_def wp_at_def emit_def Let_def
  waypoint_to_point_def point_dist_same_y point_dist_same_x upt_rec

lemmas track_eval = wp_at_def pose_at_def emit_def Let_def waypoint_to_point_def
  pose_to_point_def point_dist_sq_def origin_def search_range_def py_range_def upto_rec1
  line_ratio_def waypoints_to_vec_def dot_prod_def point_dist_same_y point_dist_same_x

lemma line3_node_eq:
  "line3_node = \<lparr>wps = line3, wp_ss = [0, 1, 2, 4], avg_wp_dist = Some 1, prev_pt = origin,
       prev_index = - 1, next_pt = - 1, trace = [Info_waypoints 3 1]\<rparr>"
  by (simp add: line3_node_def line3_def load_eval)

lemma line4_node_eq:
  "line4_node = \<lparr>wps = line4, wp_ss = [0, 1, 2, 3, 6], avg_wp_dist = Some 1, prev_pt = origin,
       prev_index = - 1, next_pt = - 1, trace = [Info_waypoints 4 1]\<rparr>"
  by (simp add: line4_node_def line4_def load_eval)

lemma rect6_node_eq:
  "rect6_node = \<lparr>wps = rect6, wp_ss = [0, 50, 400, 500, 900, 950, 1000],
       avg_wp_dist = Some 190, prev_pt = origin,
       prev_index = - 1, next_pt = - 1, trace = [Info_waypoints 6 190]\<rparr>"
  by (simp add: rect6_node_def rect6_def load_eval)

lemma nearest_line4:
  "nearest_waypoint line4_node (pose_at (8 / 5) 0) =
     (line4_node\<lparr>prev_pt := \<lparr>pt_x = 8 / 5, pt_y = 0, pt_z = 0\<rparr>, prev_index := 2\<rparr>, Inr 2)"
  by (simp add: nearest_waypoint_def line4_node_eq line4_def track_eval)

lemma next_line4:
  "next_waypoint line4_node (pose_at (8 / 5) 0) =
     (line4_node\<lparr>prev_pt := \<lparr>pt_x = 8 / 5, pt_y = 0, pt_z = 0\<rparr>, prev_index := 2\<rparr>, Inr 2)"
  by (simp only: next_waypoint_def nearest_line4)
     (simp add: line4_node_eq line4_def track_eval)

lemma nearest_line3:
  "nearest_waypoint line3_node (pose_at (8 / 5) 0) =
     (line3_node\<lparr>prev_pt := \<lparr>pt_x = 8 / 5, pt_y = 0, pt_z = 0\<rparr>, prev_index := - 1,
        trace := [Info_waypoints 3 1, Warn_end_of_range 2 0 2]\<rparr>, Inr 2)"
  by (simp add: nearest_waypoint_def line3_node_eq line3_def track_eval)

lemma next_line3:
  "next_waypoint line3_node (pose_at (8 / 5) 0) =
     (line3_node\<lparr>prev_pt := \<lparr>pt_x = 8 / 5, pt_y = 0, pt_z = 0\<rparr>, prev_index := - 1,
        trace := [Info_waypoints 3 1, Warn_end_of_range 2 0 2]\<rparr>, Inr 0)"
  by (simp only: next_waypoint_def nearest_line3)
     (simp add: line3_node_eq line3_def track_eval)

lemma nearest_rect6:
  "nearest_waypoint rect6_node (pose_at 0 60) =
     (rect6_node\<lparr>prev_pt := \<lparr>pt_x = 0, pt_y = 60, pt_z = 0\<rparr>, prev_index := - 1,
        trace := [Info_waypoints 6 190, Warn_end_of_range 5 0 5]\<rparr>, Inr 5)"
  by (simp add: nearest_waypoint_def rect6_node_eq rect6_def track_eval)

lemma next_rect6:
  "next_waypoint rect6_node (pose_at 0 60) =
     (rect6_node\<lparr>prev_pt := \<lparr>pt_x = 0, pt_y = 60, pt_z = 0\<rparr>, prev_index := - 1,
        trace := [Info_waypoints 6 190, Warn_end_of_range 5 0 5]\<rparr>, Inr 5)"
  by (simp only: next_waypoint_def nearest_rect6)
     (simp add: rect6_node_eq rect6_def track_eval)


lemmas window_eval = lookahead_window_def LOOKAHEAD_WPS_def py_slice_def py_clip_def Let_def

lemma line4_tracked_eq:
  "line4_tracked = \<lparr>wps = line4, wp_ss = [0, 1, 2, 3, 6], avg_wp_dist = Some 1,
       prev_pt = \<lparr>pt_x = 8 / 5, pt_y = 0, pt_z = 0\<rparr>, prev_index = 2, next_pt = 2,
       trace = [Info_waypoints 4 1,
                Pub_final_waypoints [wp_at 2 0, wp_at 3 0, wp_at 0 0, wp_at 1 0, wp_at 2 0, wp_at 3 0],
                Pub_next_waypoint 2]\<rparr>"
proof -
  have "wps line4_node \<noteq> []" by (simp add: line4_node_eq line4_def)
  then show ?thesis
    by (simp add: line4_tracked_def pose_cb_def next_line4)
       (simp add: line4_node_eq line4_def emit_def window_eval)
qed

lemma rect6_tracked_eq:
  "rect6_tracked = \<lparr>wps = rect6, wp_ss = [0, 50, 400, 500, 900, 950, 1000],
       avg_wp_dist = Some 190,
       prev_pt = \<lparr>pt_x = 0, pt_y = 60, pt_z = 0\<rparr>, prev_index = - 1, next_pt = 5,
       trace = [Info_waypoints 6 190, Warn_end_of_range 5 0 5,
                Pub_final_waypoints (wp_at 0 50 # rect6),
                Pub_next_waypoint 5]\<rparr>"
proof -
  have "wps rect6_node \<noteq> []" by (simp add: rect6_node_eq rect6_def)
  then show ?thesis
    by (simp add: rect6_tracked_def pose_cb_def next_rect6)
       (simp add: rect6_node_eq rect6_def emit_def window_eval)
qed

lemma reachable_line4_node: "reachable line4_node"
  unfolding line4_node_def by (intro reachable.intros)

lemma reachable_line4_tracked: "reachable line4_tracked"
  unfolding line4_tracked_def by (intro reachable.intros reachable_line4_node)

lemma reachable_rect6_tracked: "reachable rect6_tracked"
  unfolding rect6_tracked_def rect6_node_def by (intro reachable.intros)

lemma nearest_line4_start:
  "nearest_waypoint line4_node (pose_at (1 / 10) 0) =
     (line4_node\<lparr>prev_pt := \<lparr>pt_x = 1 / 10, pt_y = 0, pt_z = 0\<rparr>, prev_index := - 1,
        trace := [Info_waypoints 4 1, Warn_end_of_range 0 0 3]\<rparr>, Inr 0)"
  by (simp add: nearest_waypoint_def line4_node_eq line4_def track_eval)

section \<open>Loading a track of two or more waypoints\<close>

lemma waypoints_cb_load:
  assumes "length ws \<noteq> length (wps st)" and "2 \<le> length ws"
  shows "waypoints_cb st ws =
     (emit (Info_waypoints (length ws) (gap_loop ws [1..<length ws] 0 / real (length ws - 1)))
        (st\<lparr>wps := ws,
            wp_ss := wp_ss st @ arc_loop ws [0..<length ws + 1] 0 (waypoint_to_point (hd ws)),
            avg_wp_dist := Some (gap_loop ws [1..<length ws] 0 / real (length ws - 1))\<rparr>),
      None)"
proof (cases ws)
  case Nil
  with assms(2) show ?thesis by simp
next
  case (Cons w0 rest)
  have r: "real_of_int (int (length ws) - 1) = real (length ws - 1)"
    using assms(2) by simp
  have nz: "int (length ws) - 1 \<noteq> 0" using assms(2) by linarith
  show ?thesis
    using assms(1) nz r unfolding waypoints_cb_def Let_def
    by (simp add: Cons emit_def)
qed

lemma gap_loop_const:
  assumes "\<forall>i \<in> set is. point_dist (waypoint_to_point (ws ! i)) (waypoint_to_point (ws ! (i - 1))) = c"
  shows "gap_loop ws is a = a + c * real (length is)"
  using assms by (induction "is" arbitrary: a) (simp_all add: algebra_simps)

lemma track300_nth: "i < 300 \<Longrightarrow> track300 ! i = wp_at (real i) 0"
  by (simp add: track300_def)

lemma track300_length: "length track300 = 300"
  by (simp add: track300_def)

lemma track300_gap: "gap_loop track300 [1..<300] 0 = 299"
proof -
  have "\<forall>i \<in> set [1..<300].
          point_dist (waypoint_to_point (track300 ! i)) (waypoint_to_point (track300 ! (i - 1))) = 1"
  proof
    fix i assume "i \<in> set [1..<300]"
    then have i: "1 \<le> i" "i < 300" by simp_all
    then have "track300 ! i = wp_at (real i) 0" "track300 ! (i - 1) = wp_at (real (i - 1)) 0"
      by (simp_all add: track300_nth)
    moreover have "\<bar>real i - real (i - 1)\<bar> = 1" using i by simp
    ultimately show "point_dist (waypoint_to_point (track300 ! i))
                       (waypoint_to_point (track300 ! (i - 1))) = 1"
      by (simp add: wp_at_def waypoint_to_point_def point_dist_same_y)
  qed
  from gap_loop_const [OF this, of 0] show ?thesis by simp
qed

lemma track300_node_fields:
  "wps track300_node = track300" "avg_wp_dist track300_node = Some 1"
  "prev_pt track300_node = origin" "prev_index track300_node = - 1"
proof -
  have "length track300 \<noteq> length (wps init_node)" by (simp add: track300_length init_node_def)
  moreover have "2 \<le> length track300" by (simp add: track300_length)
  ultimately have e: "track300_node = fst (emit (Info_waypoints (length track300) (gap_loop track300 [1..<length track300] 0 / real (length track300 - 1)))
        (init_node\<lparr>wps := track300,
            wp_ss := wp_ss init_node @ arc_loop track300 [0..<length track300 + 1] 0 (waypoint_to_point (hd track300)),
            avg_wp_dist := Some (gap_loop track300 [1..<length track300] 0 / real (length track300 - 1))\<rparr>),
      None :: py_error option)"
    unfolding track300_node_def using waypoints_cb_load [of track300 init_node] by simp
  show "wps track300_node = track300" by (simp add: e emit_def)
  show "avg_wp_dist track300_node = Some 1"
    using track300_gap by (simp add: e emit_def track300_length)
  show "prev_pt track300_node = origin" by (simp add: e emit_def init_node_def)
  show "prev_index track300_node = - 1" by (simp add: e emit_def init_node_def)
qed

lemma reachable_track300_node: "reachable track300_node"
  unfolding track300_node_def by (intro reachable.intros)


lemma track300_dsq:
  assumes "0 \<le> j" and "j < 300"
  shows "dsq_at track300 (pose_to_point (pose_at a 0)) j = (real_of_int j - a) * (real_of_int j - a)"
proof -
  have "nat j < 300" using assms by linarith
  then have "track300 ! nat j = wp_at (real (nat j)) 0" by (rule track300_nth)
  moreover have "real (nat j) = real_of_int j" using assms(1) by simp
  ultimately show ?thesis
    by (simp add: dsq_at_def wp_at_def pose_at_def waypoint_to_point_def pose_to_point_def
        point_dist_sq_def Let_def)
qed

lemma near_200:
  assumes "(real_of_int m - 998 / 5) * (real_of_int m - 998 / 5) \<le> 4 / 25"
  shows "m = 200"
proof -
  have "(real_of_int m - 998 / 5)\<^sup>2 \<le> (2 / 5)\<^sup>2"
    using assms by (simp add: power2_eq_square)
  then have "\<bar>real_of_int m - 998 / 5\<bar> \<le> \<bar>2 / 5 :: real\<bar>"
    by (simp only: abs_le_square_iff)
  then have "real_of_int m \<le> 200 \<and> 996 / 5 \<le> real_of_int m" by linarith
  then have "m \<le> 200 \<and> 199 < m" by linarith
  then show ?thesis by linarith
qed

lemma track300_nearest:
  "snd (nearest_waypoint track300_node (pose_at (998 / 5) 0)) = Inr 200"
proof -
  let ?pose = "pose_at (998 / 5) 0"
  let ?ppt = "pose_to_point ?pose"
  define rg where "rg = search_range (length (wps track300_node)) (- 1)"
  define m where "m = fst (nearest_loop (wps track300_node) ?ppt rg (- 1, 0))"
  have rg: "rg = py_range 0 300"
    by (simp add: rg_def search_range_def track300_node_fields track300_length)
  have ne: "rg \<noteq> []" by (simp add: rg py_range_empty)
  have p: "- 1 = (if point_dist_sq ?ppt (prev_pt track300_node) > (1 / 2) * 1 * 200
                  then - 1 else prev_index track300_node)"
    by (simp add: track300_node_fields)
  have res: "snd (nearest_waypoint track300_node ?pose) = Inr m"
    using nearest_waypoint_unfold(1) [OF track300_node_fields(2) p rg_def m_def] ne by simp
  have best: "m \<in> set rg \<and> (\<forall>j \<in> set rg. dsq_at track300 ?ppt m \<le> dsq_at track300 ?ppt j)"
    using nearest_loop_start [OF ne, of "wps track300_node" ?ppt] search_range_nonneg [of "length (wps track300_node)" "- 1"]
    unfolding m_def rg_def [symmetric] by (simp add: track300_node_fields)
  then have mr: "0 \<le> m" "m < 300" by (simp_all add: rg py_range_set)
  have "(200 :: int) \<in> set rg" by (simp add: rg py_range_set)
  with best have "dsq_at track300 ?ppt m \<le> dsq_at track300 ?ppt 200" by blast
  then have "(real_of_int m - 998 / 5) * (real_of_int m - 998 / 5) \<le> 4 / 25"
    using mr by (simp add: track300_dsq)
  then have "m = 200" by (rule near_200)
  with res show ?thesis by simp
qed

lemma track300_next:
  "snd (next_waypoint track300_node (pose_at (998 / 5) 0)) = Inr 200"
proof -
  obtain s where s: "nearest_waypoint track300_node (pose_at (998 / 5) 0) = (s, Inr 200)"
    using track300_nearest by (metis prod.collapse)
  have w: "wps s = track300"
    using nearest_waypoint_frame_wps [of track300_node "pose_at (998 / 5) 0"] s
    by (simp add: track300_node_fields)
  have n: "track300 ! 199 = wp_at 199 0" "track300 ! 200 = wp_at 200 0" "track300 ! 201 = wp_at 201 0"
    using track300_nth [of 199] track300_nth [of 200] track300_nth [of 201] by simp_all
  show ?thesis
    by (simp add: next_waypoint_def s w track300_length n Let_def)
       (simp add: n track_eval)
qed

lemma next_waypoint_tracker:
  "prev_index (fst (next_waypoint st pose)) = prev_index (fst (nearest_waypoint st pose))
   \<and> prev_pt (fst (next_waypoint st pose)) = prev_pt (fst (nearest_waypoint st pose))"
  by (cases "nearest_waypoint st pose")
     (auto simp add: next_waypoint_def emit_def Let_def split: sum.splits)

lemma pose_cb_tracker:
  assumes "wps st \<noteq> []"
  shows "prev_index (fst (pose_cb st msg)) = prev_index (fst (nearest_waypoint st msg))
       \<and> prev_pt (fst (pose_cb st msg)) = prev_pt (fst (nearest_waypoint st msg))"
  using assms next_waypoint_tracker [of st msg]
  by (cases "next_waypoint st msg")
     (auto simp add: pose_cb_def emit_def Let_def split: sum.splits)

lemma track300_loop:
  "fst (nearest_loop track300 (pose_to_point (pose_at (998 / 5) 0)) (py_range 0 300) (- 1, 0)) = 200"
proof -
  let ?ppt = "pose_to_point (pose_at (998 / 5) 0)"
  define m where "m = fst (nearest_loop track300 ?ppt (py_range 0 300) (- 1, 0))"
  have ne: "py_range 0 300 \<noteq> []" by (simp add: py_range_empty)
  have nn: "\<forall>i \<in> set (py_range 0 300). 0 \<le> i" by (simp add: py_range_set)
  have best: "m \<in> set (py_range 0 300)
      \<and> (\<forall>j \<in> set (py_range 0 300). dsq_at track300 ?ppt m \<le> dsq_at track300 ?ppt j)"
    unfolding m_def by (rule nearest_loop_start [OF ne nn])
  then have mr: "0 \<le> m" "m < 300" by (simp_all add: py_range_set)
  have "(200 :: int) \<in> set (py_range 0 300)" by (simp add: py_range_set)
  with best have "dsq_at track300 ?ppt m \<le> dsq_at track300 ?ppt 200" by blast
  then have "(real_of_int m - 998 / 5) * (real_of_int m - 998 / 5) \<le> 4 / 25"
    using mr by (simp add: track300_dsq)
  then show ?thesis unfolding m_def [symmetric] by (rule near_200)
qed

lemma track300_tracked_fields:
  "wps track300_tracked = track300" "avg_wp_dist track300_tracked = Some 1"
  "prev_pt track300_tracked = \<lparr>pt_x = 998 / 5, pt_y = 0, pt_z = 0\<rparr>"
  "prev_index track300_tracked = 200"
proof -
  let ?pose = "pose_at (998 / 5) 0"
  have ne: "wps track300_node \<noteq> []"
    using track300_length by (auto simp add: track300_node_fields)
  show "wps track300_tracked = track300"
    unfolding track300_tracked_def using pose_cb_frame [of track300_node ?pose]
    by (simp add: track300_node_fields)
  show "avg_wp_dist track300_tracked = Some 1"
    unfolding track300_tracked_def using pose_cb_frame [of track300_node ?pose]
    by (simp add: track300_node_fields)
  have p: "- 1 = (if point_dist_sq (pose_to_point ?pose) (prev_pt track300_node) > (1 / 2) * 1 * 200
                  then - 1 else prev_index track300_node)"
    by (simp add: track300_node_fields)
  have rg: "py_range 0 300 = search_range (length (wps track300_node)) (- 1)"
    by (simp add: search_range_def track300_node_fields track300_length)
  have m: "200 = fst (nearest_loop (wps track300_node) (pose_to_point ?pose) (py_range 0 300) (- 1, 0))"
    by (simp add: track300_node_fields track300_loop)
  have r: "py_range 0 300 \<noteq> []" by (simp add: py_range_empty)
  have "prev_index (fst (nearest_waypoint track300_node ?pose)) =
          (if 200 = hd (py_range 0 300) \<or> 200 = last (py_range 0 300) then - 1 else 200)"
    by (rule nearest_waypoint_unfold(2) [OF track300_node_fields(2) p rg m r])
  then have "prev_index (fst (nearest_waypoint track300_node ?pose)) = 200"
    by (simp add: py_range_hd py_range_last)
  then show "prev_index track300_tracked = 200"
    unfolding track300_tracked_def using pose_cb_tracker [OF ne, of ?pose] by simp
  have "prev_pt (fst (nearest_waypoint track300_node ?pose)) = pose_to_point ?pose"
    by (rule nearest_waypoint_unfold(3) [OF track300_node_fields(2) p rg m])
  then show "prev_pt track300_tracked = \<lparr>pt_x = 998 / 5, pt_y = 0, pt_z = 0\<rparr>"
    unfolding track300_tracked_def using pose_cb_tracker [OF ne, of ?pose]
    by (simp add: pose_at_def pose_to_point_def)
qed

lemma reachable_track300_tracked: "reachable track300_tracked"
  unfolding track300_tracked_def by (intro reachable.intros reachable_track300_node)

lemma track300_reloaded_fields:
  "wps track300_reloaded = line3" "avg_wp_dist track300_reloaded = Some 1"
  "prev_pt track300_reloaded = \<lparr>pt_x = 998 / 5, pt_y = 0, pt_z = 0\<rparr>"
  "prev_index track300_reloaded = 200"
proof -
  have a: "length line3 \<noteq> length (wps track300_tracked)"
    by (simp add: track300_tracked_fields track300_length line3_def)
  have b: "2 \<le> length line3" by (simp add: line3_def)
  have l: "length line3 = 3" by (simp add: line3_def)
  have g: "gap_loop line3 [1..<3] 0 = 2"
    by (simp add: line3_def wp_at_def waypoint_to_point_def point_dist_same_y upt_rec)
  note e = waypoints_cb_load [OF a b]
  show "wps track300_reloaded = line3"
    unfolding track300_reloaded_def e by (simp add: emit_def)
  show "avg_wp_dist track300_reloaded = Some 1"
    unfolding track300_reloaded_def e l using g by (simp add: emit_def)
  show "prev_pt track300_reloaded = \<lparr>pt_x = 998 / 5, pt_y = 0, pt_z = 0\<rparr>"
    unfolding track300_reloaded_def e by (simp add: emit_def track300_tracked_fields)
  show "prev_index track300_reloaded = 200"
    unfolding track300_reloaded_def e by (simp add: emit_def track300_tracked_fields)
qed

lemma reachable_track300_reloaded: "reachable track300_reloaded"
  unfolding track300_reloaded_def by (intro reachable.intros reachable_track300_tracked)

lemma line4_emptied_fields:
  "wps line4_emptied = []" "avg_wp_dist line4_emptied = Some 1"
  "prev_pt line4_emptied = origin" "prev_index line4_emptied = - 1"
  by (simp_all add: line4_emptied_def line4_node_eq line4_def waypoints_cb_def)

lemma reachable_line4_emptied: "reachable line4_emptied"
  unfolding line4_emptied_def by (intro reachable.intros reachable_line4_node)

section \<open>Track model: claims\<close>

text \<open>
  Claim C2. The arc-length entries of a load are appended to \<^verbatim>\<open>self.wp_ss\<close>, which is
  never emptied. The first load of the node leaves the table the claim describes, but
  a load that replaces a held track leaves the old entries in front of the new ones:
  after the 3-waypoint track \<open>line3\<close>, loading the 4-waypoint track \<open>line4\<close> gives a
  table of 9 entries, not 5, that is not non-decreasing and whose entry 4 is 0, not
  the loop length 6.
\<close>

theorem waypoints_cb_reload_table:
  "waypoints_cb line3_node line4 =
     (\<lparr>wps = line4, wp_ss = [0, 1, 2, 4, 0, 1, 2, 3, 6], avg_wp_dist = Some 1,
       prev_pt = origin, prev_index = - 1, next_pt = - 1,
       trace = [Info_waypoints 3 1, Info_waypoints 4 1]\<rparr>, None)"
  by (simp add: line3_node_eq line3_def line4_def waypoints_cb_def wp_at_def emit_def Let_def
      waypoint_to_point_def point_dist_same_y point_dist_same_x upt_rec)

text \<open>
  Claim C9. A degenerate track is not rejected. Loading a 1-waypoint track into the
  fresh node stores the track and two table entries and then divides the spacing sum
  by \<open>len - 1 = 0\<close>: the callback raises ZeroDivisionError. Loading an empty track over
  a held one stores the empty track and raises IndexError at \<^verbatim>\<open>self.wps[0]\<close>.
\<close>

theorem waypoints_cb_degenerate:
  "waypoints_cb init_node [wp_at 0 0] =
     (\<lparr>wps = [wp_at 0 0], wp_ss = [0, 0], avg_wp_dist = Some 0, prev_pt = origin,
       prev_index = - 1, next_pt = - 1, trace = []\<rparr>, Some ZeroDivisionError)
   \<and> waypoints_cb line4_node [] = (line4_node\<lparr>wps := []\<rparr>, Some IndexError)"
  by (simp add: line4_node_eq line4_def waypoints_cb_def init_node_def wp_at_def Let_def
      waypoint_to_point_def point_dist_same_y upt_rec)

section \<open>Position tracker: claims\<close>

text \<open>What a call does with the range \<open>lo\<close> up to \<open>hi\<close> exclusive that it searches: a
  non-empty range yields an index of the range that is nearest among the waypoints
  of the range, an empty one makes \<^verbatim>\<open>rg[0]\<close> raise.\<close>

lemma nearest_waypoint_covers:
  assumes "avg_wp_dist st = Some avg"
    and "p = (if point_dist_sq (pose_to_point pose) (prev_pt st) > (1 / 2) * avg * 200
              then - 1 else prev_index st)"
    and "search_range (length (wps st)) p = py_range lo hi"
    and "\<forall>i \<in> set (py_range lo hi). 0 \<le> i"
  shows "(if lo < hi
          then \<exists>st' m. nearest_waypoint st pose = (st', Inr m) \<and> lo \<le> m \<and> m < hi
                 \<and> (\<forall>j. lo \<le> j \<and> j < hi \<longrightarrow>
                       dsq_at (wps st) (pose_to_point pose) m \<le> dsq_at (wps st) (pose_to_point pose) j)
          else snd (nearest_waypoint st pose) = Inl IndexError)"
proof -
  let ?ppt = "pose_to_point pose"
  define rg where "rg = search_range (length (wps st)) p"
  define m where "m = fst (nearest_loop (wps st) ?ppt rg (- 1, 0))"
  have rg: "rg = py_range lo hi" using assms(3) by (simp add: rg_def)
  have res: "snd (nearest_waypoint st pose) = (if rg = [] then Inl IndexError else Inr m)"
    by (rule nearest_waypoint_unfold(1) [OF assms(1) assms(2) rg_def m_def])
  show ?thesis
  proof (cases "lo < hi")
    case True
    then have ne: "rg \<noteq> []" unfolding rg py_range_empty by linarith
    have nn: "\<forall>i \<in> set rg. 0 \<le> i" using assms(4) by (simp add: rg)
    have best: "m \<in> set rg \<and> (\<forall>j \<in> set rg. dsq_at (wps st) ?ppt m \<le> dsq_at (wps st) ?ppt j)"
      unfolding m_def by (rule nearest_loop_start [OF ne nn])
    have "nearest_waypoint st pose = (fst (nearest_waypoint st pose), Inr m)"
      using res ne by (metis prod.collapse)
    with best have "\<exists>st' m. nearest_waypoint st pose = (st', Inr m) \<and> lo \<le> m \<and> m < hi
                 \<and> (\<forall>j. lo \<le> j \<and> j < hi \<longrightarrow>
                       dsq_at (wps st) ?ppt m \<le> dsq_at (wps st) ?ppt j)"
      by (intro exI [of _ "fst (nearest_waypoint st pose)"] exI [of _ m])
         (simp add: rg py_range_set)
    with True show ?thesis by simp
  next
    case False
    then have "rg = []" unfolding rg py_range_empty by linarith
    with res False show ?thesis by simp
  qed
qed

lemma near_100:
  assumes "(real_of_int m - 100) * (real_of_int m - 100) \<le> 0"
  shows "m = 100"
proof -
  have "(real_of_int m - 100) * (real_of_int m - 100) = 0"
    using assms zero_le_square [of "real_of_int m - 100"] by linarith
  then have "real_of_int m = 100" by simp
  then show ?thesis by linarith
qed

lemma near_195:
  assumes "195 \<le> m" and "(real_of_int m - 190) * (real_of_int m - 190) \<le> 25"
  shows "m = 195"
proof -
  have "(real_of_int m - 190)\<^sup>2 \<le> 5\<^sup>2"
    using assms(2) by (simp add: power2_eq_square)
  then have "\<bar>real_of_int m - 190\<bar> \<le> \<bar>5 :: real\<bar>"
    by (simp only: abs_le_square_iff)
  then have "real_of_int m \<le> 195" by linarith
  then have "m \<le> 195" by linarith
  with assms(1) show ?thesis by linarith
qed

text \<open>
  Claim C8. In a call of \<^verbatim>\<open>nearest_waypoint\<close> (the average spacing being set): when the
  squared distance from the last recorded position exceeds \<open>0.5 * avg_wp_dist * 200\<close>,
  the sticky index is dropped (the "resetting" warning is logged) and the search
  covers the whole track, the indices 0 up to \<open>len\<close> exclusive; otherwise, with a
  sticky index \<open>p > -1\<close>, the search covers only the indices from \<open>max 0 (p - 5)\<close> up to
  \<open>min len (p + 200 + 1)\<close> exclusive. A search over a non-empty range returns an index
  of that range whose waypoint is at least as near as every waypoint of the range, so
  after a jump the nearest waypoint of the whole track is found; a search over an
  empty range (an empty track, or a sticky index of \<open>len + 5\<close> or more, left by a
  shorter track loaded since) finds nothing and \<^verbatim>\<open>rg[0]\<close> raises IndexError.
\<close>

theorem nearest_waypoint_search:
  assumes "avg_wp_dist st = Some avg"
  shows "(point_dist_sq (pose_to_point pose) (prev_pt st) > (1 / 2) * avg * 200 \<longrightarrow>
           Warn_resetting \<in> set (trace (fst (nearest_waypoint st pose)))
           \<and> (if 0 < int (length (wps st))
              then \<exists>st' m. nearest_waypoint st pose = (st', Inr m)
                     \<and> 0 \<le> m \<and> m < int (length (wps st))
                     \<and> (\<forall>j. 0 \<le> j \<and> j < int (length (wps st)) \<longrightarrow>
                           dsq_at (wps st) (pose_to_point pose) m
                             \<le> dsq_at (wps st) (pose_to_point pose) j)
              else snd (nearest_waypoint st pose) = Inl IndexError))
       \<and> (\<not> point_dist_sq (pose_to_point pose) (prev_pt st) > (1 / 2) * avg * 200
            \<and> prev_index st > - 1 \<longrightarrow>
           (if max 0 (prev_index st - 5) < min (int (length (wps st))) (prev_index st + 200 + 1)
            then \<exists>st' m. nearest_waypoint st pose = (st', Inr m)
                   \<and> max 0 (prev_index st - 5) \<le> m
                   \<and> m < min (int (length (wps st))) (prev_index st + 200 + 1)
                   \<and> (\<forall>j. max 0 (prev_index st - 5) \<le> j
                           \<and> j < min (int (length (wps st))) (prev_index st + 200 + 1) \<longrightarrow>
                         dsq_at (wps st) (pose_to_point pose) m
                           \<le> dsq_at (wps st) (pose_to_point pose) j)
            else snd (nearest_waypoint st pose) = Inl IndexError))"
proof (intro conjI impI)
  let ?ppt = "pose_to_point pose"
  assume jump: "point_dist_sq ?ppt (prev_pt st) > (1 / 2) * avg * 200"
  have p: "- 1 = (if point_dist_sq ?ppt (prev_pt st) > (1 / 2) * avg * 200 then - 1 else prev_index st)"
    using jump by simp
  show "Warn_resetting \<in> set (trace (fst (nearest_waypoint st pose)))"
    using nearest_waypoint_unfold(4) [OF assms p refl refl] jump by simp
  have rg: "search_range (length (wps st)) (- 1) = py_range 0 (int (length (wps st)))"
    by (simp add: search_range_def)
  have nn: "\<forall>i \<in> set (py_range 0 (int (length (wps st)))). 0 \<le> i"
    by (simp add: py_range_set)
  show "if 0 < int (length (wps st))
        then \<exists>st' m. nearest_waypoint st pose = (st', Inr m)
               \<and> 0 \<le> m \<and> m < int (length (wps st))
               \<and> (\<forall>j. 0 \<le> j \<and> j < int (length (wps st)) \<longrightarrow>
                     dsq_at (wps st) ?ppt m \<le> dsq_at (wps st) ?ppt j)
        else snd (nearest_waypoint st pose) = Inl IndexError"
    by (rule nearest_waypoint_covers [OF assms p rg nn])
next
  let ?ppt = "pose_to_point pose"
  let ?lo = "max 0 (prev_index st - 5)"
  let ?hi = "min (int (length (wps st))) (prev_index st + 200 + 1)"
  assume near: "\<not> point_dist_sq ?ppt (prev_pt st) > (1 / 2) * avg * 200 \<and> prev_index st > - 1"
  have p: "prev_index st = (if point_dist_sq ?ppt (prev_pt st) > (1 / 2) * avg * 200 then - 1 else prev_index st)"
    using near by simp
  have rg: "search_range (length (wps st)) (prev_index st) = py_range ?lo ?hi"
    using near by (simp add: search_range_def)
  have nn: "\<forall>i \<in> set (py_range ?lo ?hi). 0 \<le> i"
    by (simp add: py_range_set)
  show "if ?lo < ?hi
        then \<exists>st' m. nearest_waypoint st pose = (st', Inr m) \<and> ?lo \<le> m \<and> m < ?hi
               \<and> (\<forall>j. ?lo \<le> j \<and> j < ?hi \<longrightarrow>
                     dsq_at (wps st) ?ppt m \<le> dsq_at (wps st) ?ppt j)
        else snd (nearest_waypoint st pose) = Inl IndexError"
    by (rule nearest_waypoint_covers [OF assms p rg nn])
qed

text \<open>
  Four calls. On the 300-waypoint track with sticky index 200 and last position
  \<open>x = 199.6\<close>: a pose at \<open>x = 100\<close> is a jump, the whole track is searched and index 100
  is found, far outside the window; a pose at \<open>x = 190\<close> is no jump, only the window
  from 195 up to 300 is searched and index 195 is returned although waypoint 190 is
  nearer. After the 3-waypoint track is loaded over it, the window of sticky index
  200 is empty and the call raises IndexError. On an emptied track a jump searches
  the empty track and raises IndexError.
\<close>

theorem nearest_waypoint_search_witness:
  "avg_wp_dist track300_tracked = Some 1 \<and> reachable track300_tracked
   \<and> point_dist_sq (pose_to_point (pose_at 100 0)) (prev_pt track300_tracked) > (1 / 2) * 1 * 200
   \<and> 0 < int (length (wps track300_tracked))
   \<and> Warn_resetting \<in> set (trace (fst (nearest_waypoint track300_tracked (pose_at 100 0))))
   \<and> snd (nearest_waypoint track300_tracked (pose_at 100 0)) = Inr 100
   \<and> \<not> point_dist_sq (pose_to_point (pose_at 190 0)) (prev_pt track300_tracked) > (1 / 2) * 1 * 200
   \<and> prev_index track300_tracked > - 1
   \<and> max 0 (prev_index track300_tracked - 5) = 195
   \<and> min (int (length (wps track300_tracked))) (prev_index track300_tracked + 200 + 1) = 300
   \<and> snd (nearest_waypoint track300_tracked (pose_at 190 0)) = Inr 195
   \<and> dsq_at (wps track300_tracked) (pose_to_point (pose_at 190 0)) 190
       < dsq_at (wps track300_tracked) (pose_to_point (pose_at 190 0)) 195
   \<and> avg_wp_dist track300_reloaded = Some 1 \<and> reachable track300_reloaded
   \<and> \<not> point_dist_sq (pose_to_point (pose_at 199 0)) (prev_pt track300_reloaded) > (1 / 2) * 1 * 200
   \<and> prev_index track300_reloaded > - 1
   \<and> \<not> max 0 (prev_index track300_reloaded - 5)
         < min (int (length (wps track300_reloaded))) (prev_index track300_reloaded + 200 + 1)
   \<and> snd (nearest_waypoint track300_reloaded (pose_at 199 0)) = Inl IndexError
   \<and> avg_wp_dist line4_emptied = Some 1 \<and> reachable line4_emptied
   \<and> point_dist_sq (pose_to_point (pose_at 13 0)) (prev_pt line4_emptied) > (1 / 2) * 1 * 200
   \<and> \<not> 0 < int (length (wps line4_emptied))
   \<and> snd (nearest_waypoint line4_emptied (pose_at 13 0)) = Inl IndexError"
proof -
  let ?T = track300_tracked
  let ?R = track300_reloaded
  let ?E = line4_emptied
  note tf = track300_tracked_fields
  note rf = track300_reloaded_fields
  note ef = line4_emptied_fields
  have j1: "point_dist_sq (pose_to_point (pose_at 100 0)) (prev_pt ?T) > (1 / 2) * 1 * 200"
    by (simp add: tf pose_at_def pose_to_point_def point_dist_sq_def Let_def)
  have n1: "0 < int (length (wps ?T))" by (simp add: tf track300_length)
  note a = nearest_waypoint_search [OF tf(2), of "pose_at 100 0", THEN conjunct1, rule_format, OF j1]
  have w1: "Warn_resetting \<in> set (trace (fst (nearest_waypoint ?T (pose_at 100 0))))"
    using a by simp
  from a n1 obtain s1 m1 where
    r1: "nearest_waypoint ?T (pose_at 100 0) = (s1, Inr m1)" and b1: "0 \<le> m1" "m1 < int (length (wps ?T))"
    and min1: "\<forall>j. 0 \<le> j \<and> j < int (length (wps ?T)) \<longrightarrow>
                 dsq_at (wps ?T) (pose_to_point (pose_at 100 0)) m1
                   \<le> dsq_at (wps ?T) (pose_to_point (pose_at 100 0)) j"
    by auto
  have "dsq_at (wps ?T) (pose_to_point (pose_at 100 0)) m1
          \<le> dsq_at (wps ?T) (pose_to_point (pose_at 100 0)) 100"
    using min1 by (simp add: tf track300_length)
  then have "(real_of_int m1 - 100) * (real_of_int m1 - 100) \<le> 0"
    using b1 by (simp add: tf track300_length track300_dsq)
  then have "m1 = 100" by (rule near_100)
  with r1 have e1: "snd (nearest_waypoint ?T (pose_at 100 0)) = Inr 100" by simp
  have j2: "\<not> point_dist_sq (pose_to_point (pose_at 190 0)) (prev_pt ?T) > (1 / 2) * 1 * 200
            \<and> prev_index ?T > - 1"
    by (simp add: tf pose_at_def pose_to_point_def point_dist_sq_def Let_def)
  have lo2: "max 0 (prev_index ?T - 5) = 195" by (simp add: tf)
  have hi2: "min (int (length (wps ?T))) (prev_index ?T + 200 + 1) = 300"
    by (simp add: tf track300_length)
  note b = nearest_waypoint_search [OF tf(2), of "pose_at 190 0", THEN conjunct2, rule_format, OF j2]
  from b obtain s2 m2 where
    r2: "nearest_waypoint ?T (pose_at 190 0) = (s2, Inr m2)" and b2: "195 \<le> m2" "m2 < 300"
    and min2: "\<forall>j. 195 \<le> j \<and> j < 300 \<longrightarrow>
                 dsq_at (wps ?T) (pose_to_point (pose_at 190 0)) m2
                   \<le> dsq_at (wps ?T) (pose_to_point (pose_at 190 0)) j"
    unfolding lo2 hi2 by auto
  have "dsq_at (wps ?T) (pose_to_point (pose_at 190 0)) m2
          \<le> dsq_at (wps ?T) (pose_to_point (pose_at 190 0)) 195"
    using min2 by simp
  then have "(real_of_int m2 - 190) * (real_of_int m2 - 190) \<le> 25"
    using b2 by (simp add: tf track300_dsq)
  with b2(1) have "m2 = 195" by (rule near_195)
  with r2 have e2: "snd (nearest_waypoint ?T (pose_at 190 0)) = Inr 195" by simp
  have out2: "dsq_at (wps ?T) (pose_to_point (pose_at 190 0)) 190
       < dsq_at (wps ?T) (pose_to_point (pose_at 190 0)) 195"
    by (simp add: tf track300_dsq)
  have j3: "\<not> point_dist_sq (pose_to_point (pose_at 199 0)) (prev_pt ?R) > (1 / 2) * 1 * 200
            \<and> prev_index ?R > - 1"
    by (simp add: rf pose_at_def pose_to_point_def point_dist_sq_def Let_def)
  have em3: "\<not> max 0 (prev_index ?R - 5) < min (int (length (wps ?R))) (prev_index ?R + 200 + 1)"
    by (simp add: rf line3_def)
  note c = nearest_waypoint_search [OF rf(2), of "pose_at 199 0", THEN conjunct2, rule_format, OF j3]
  have e3: "snd (nearest_waypoint ?R (pose_at 199 0)) = Inl IndexError"
    using c em3 by simp
  have j4: "point_dist_sq (pose_to_point (pose_at 13 0)) (prev_pt ?E) > (1 / 2) * 1 * 200"
    by (simp add: ef origin_def pose_at_def pose_to_point_def point_dist_sq_def Let_def)
  have em4: "\<not> 0 < int (length (wps ?E))" by (simp add: ef)
  note d = nearest_waypoint_search [OF ef(2), of "pose_at 13 0", THEN conjunct1, rule_format, OF j4]
  have e4: "snd (nearest_waypoint ?E (pose_at 13 0)) = Inl IndexError"
    using d em4 by simp
  from tf(2) reachable_track300_tracked j1 n1 w1 e1 j2 lo2 hi2 e2 out2
    rf(2) reachable_track300_reloaded j3 em3 e3
    ef(2) reachable_line4_emptied j4 em4 e4
  show ?thesis by (intro conjI) simp_all
qed

text \<open>
  Claim C7, as stated, fails: the boundary check is made on every search. On the
  4-waypoint track, the fresh tracker (sticky index unset, so a full-track search)
  finds index 0 as nearest to \<open>x = 0.1\<close>; the warning is logged and the sticky index
  stays unset instead of becoming 0.
\<close>

theorem full_search_boundary_counterexample:
  "prev_index line4_node = - 1
   \<and> search_range (length (wps line4_node)) (prev_index line4_node) = [0, 1, 2, 3]
   \<and> snd (nearest_waypoint line4_node (pose_at (1 / 10) 0)) = Inr 0
   \<and> prev_index (fst (nearest_waypoint line4_node (pose_at (1 / 10) 0))) = - 1
   \<and> trace (fst (nearest_waypoint line4_node (pose_at (1 / 10) 0)))
       = [Info_waypoints 4 1, Warn_end_of_range 0 0 3]"
  by (simp add: nearest_line4_start)
     (simp add: line4_node_eq line4_def search_range_def py_range_def upto_rec1)

text \<open>
  Claim C7, amended. The boundary case applies to every search, bounded or
  full-track. With \<open>p\<close> the sticky index after the jump check, the search runs over
  the indices from \<open>lo\<close> up to \<open>hi\<close> exclusive, which are \<open>max 0 (p - 5)\<close> and
  \<open>min len (p + 200 + 1)\<close> for a valid \<open>p\<close> and 0 and the track length otherwise.
  When the index found is \<open>lo\<close> or \<open>hi - 1\<close>, the sticky index is left unset and the
  index found is still returned; otherwise the sticky index becomes the index found.
  So a full-track search whose minimum is index 0 or the last index of the track
  leaves the sticky index unset too.
\<close>

theorem nearest_waypoint_boundary:
  assumes "avg_wp_dist st = Some avg" and "nearest_waypoint st pose = (st', Inr m)"
    and "p = (if point_dist_sq (pose_to_point pose) (prev_pt st) > (1 / 2) * avg * 200
              then - 1 else prev_index st)"
    and "lo = (if p > - 1 then max 0 (p - 5) else 0)"
    and "hi = (if p > - 1 then min (int (length (wps st))) (p + 200 + 1) else int (length (wps st)))"
  shows "lo \<le> m \<and> m < hi \<and> prev_index st' = (if m = lo \<or> m = hi - 1 then - 1 else m)"
proof -
  define rg where "rg = search_range (length (wps st)) p"
  define m' where "m' = fst (nearest_loop (wps st) (pose_to_point pose) rg (- 1, 0))"
  have rg: "rg = py_range lo hi"
    unfolding rg_def assms(4,5) by (rule search_range_eq)
  have res: "snd (nearest_waypoint st pose) = (if rg = [] then Inl IndexError else Inr m')"
    by (rule nearest_waypoint_unfold(1) [OF assms(1) assms(3) rg_def m'_def])
  have ne: "rg \<noteq> []" using res assms(2) by (auto split: if_splits)
  then have lohi: "lo < hi" unfolding rg py_range_empty by linarith
  have mm: "m' = m" using res ne assms(2) by simp
  have "prev_index (fst (nearest_waypoint st pose)) = (if m' = hd rg \<or> m' = last rg then - 1 else m')"
    by (rule nearest_waypoint_unfold(2) [OF assms(1) assms(3) rg_def m'_def ne])
  then have pi: "prev_index st' = (if m = lo \<or> m = hi - 1 then - 1 else m)"
    using assms(2) mm lohi by (simp add: rg py_range_hd py_range_last)
  have "m' \<in> set rg"
    unfolding m'_def using nearest_loop_start [OF ne] search_range_nonneg rg_def by blast
  then have "lo \<le> m \<and> m < hi" using mm by (simp add: rg py_range_set)
  with pi show ?thesis by simp
qed

theorem nearest_waypoint_boundary_witness:
  "avg_wp_dist line4_node = Some 1
   \<and> nearest_waypoint line4_node (pose_at (1 / 10) 0) =
       (line4_node\<lparr>prev_pt := \<lparr>pt_x = 1 / 10, pt_y = 0, pt_z = 0\<rparr>, prev_index := - 1,
          trace := [Info_waypoints 4 1, Warn_end_of_range 0 0 3]\<rparr>, Inr 0)
   \<and> - 1 = (if point_dist_sq (pose_to_point (pose_at (1 / 10) 0)) (prev_pt line4_node) > (1 / 2) * 1 * 200
            then - 1 else prev_index line4_node)
   \<and> (0 :: int) \<le> 0 \<and> (0 :: int) < int (length (wps line4_node))
   \<and> prev_index (line4_node\<lparr>prev_pt := \<lparr>pt_x = 1 / 10, pt_y = 0, pt_z = 0\<rparr>, prev_index := - 1,
          trace := [Info_waypoints 4 1, Warn_end_of_range 0 0 3]\<rparr>) = - 1"
proof -
  have h1: "avg_wp_dist line4_node = Some 1" by (simp add: line4_node_eq)
  have p: "- 1 = (if point_dist_sq (pose_to_point (pose_at (1 / 10) 0)) (prev_pt line4_node) > (1 / 2) * 1 * 200
            then - 1 else prev_index line4_node)"
    by (simp add: line4_node_eq)
  have lo: "(0 :: int) = (if (- 1 :: int) > - 1 then max 0 (- 1 - 5) else 0)" by simp
  have hi: "int (length (wps line4_node)) =
      (if (- 1 :: int) > - 1 then min (int (length (wps line4_node))) (- 1 + 200 + 1)
       else int (length (wps line4_node)))" by simp
  from nearest_waypoint_boundary [OF h1 nearest_line4_start p lo hi] h1 nearest_line4_start p
  show ?thesis by simp
qed

section \<open>Next waypoint: claims\<close>

lemma point_dist_sq_zero: "point_dist_sq a b = 0 \<longleftrightarrow> a = b"
proof
  assume z: "point_dist_sq a b = 0"
  have "(pt_x a - pt_x b) * (pt_x a - pt_x b) + (pt_y a - pt_y b) * (pt_y a - pt_y b)
        + (pt_z a - pt_z b) * (pt_z a - pt_z b) = 0"
    using z by (simp add: point_dist_sq_def Let_def)
  then have "pt_x a - pt_x b = 0 \<and> pt_y a - pt_y b = 0 \<and> pt_z a - pt_z b = 0"
    by (smt (verit) zero_le_square mult_eq_0_iff add_nonneg_eq_0_iff)
  then show "a = b" by simp
next
  assume "a = b"
  then show "point_dist_sq a b = 0" by (simp add: point_dist_sq_def)
qed

lemma point_dist_zero: "point_dist a b = 0 \<longleftrightarrow> a = b"
  by (simp add: point_dist_def point_dist_sq_zero)

lemma line_ratio_distinct:
  "a \<noteq> c \<Longrightarrow> line_ratio a b c =
     Inr (dot_prod (waypoints_to_vec a b) (waypoints_to_vec a c) / point_dist a c)"
  by (simp add: line_ratio_def Let_def point_dist_zero)

lemma line_ratio_same: "line_ratio a b a = Inl ZeroDivisionError"
  by (simp add: line_ratio_def Let_def point_dist_zero)

text \<open>
  Claim C4, as stated, fails on its example: on the closed track whose waypoints are
  \<open>x = 0, 1, 2\<close>, the nearest waypoint to \<open>x = 1.6\<close> is index 2 (at \<open>x = 2\<close>), its
  successor is index 0, the line from waypoint 1 to waypoint 0 points backwards, and
  \<^verbatim>\<open>next_waypoint\<close> returns index 0, the waypoint at \<open>x = 0\<close>.
\<close>

theorem next_waypoint_line3_counterexample:
  "wps line3_node = [wp_at 0 0, wp_at 1 0, wp_at 2 0]
   \<and> snd (nearest_waypoint line3_node (pose_at (8 / 5) 0)) = Inr 2
   \<and> snd (next_waypoint line3_node (pose_at (8 / 5) 0)) = Inr 0"
  by (simp add: next_line3 nearest_line3) (simp add: line3_node_eq line3_def)

text \<open>
  Claim C4, amended. On a non-empty track where \<^verbatim>\<open>nearest_waypoint\<close> returns a valid
  index \<open>cur\<close>, and the waypoints before and after \<open>cur\<close> (indices modulo the track
  length) are at distinct positions, both projection ratios are defined and
  \<^verbatim>\<open>next_waypoint\<close> returns \<open>(cur + 1) mod len\<close> exactly when \<open>eratio > cratio\<close> and
  \<open>cur\<close> otherwise. (When the two positions coincide, as on every track of one or two
  waypoints, the ratio divides by zero.)
\<close>

theorem next_waypoint_advance:
  assumes "nearest_waypoint st pose = (st1, Inr cur)"
    and "0 \<le> cur" and "cur < int (length (wps st))"
    and "ppt = waypoint_to_point (wps st ! nat ((cur + int (length (wps st)) - 1) mod int (length (wps st))))"
    and "npt = waypoint_to_point (wps st ! nat ((cur + 1) mod int (length (wps st))))"
    and "cpt = waypoint_to_point (wps st ! nat cur)"
    and "ppt \<noteq> npt"
  shows "\<exists>eratio cratio.
           line_ratio ppt (pose_to_point pose) npt = Inr eratio
         \<and> line_ratio ppt cpt npt = Inr cratio
         \<and> next_waypoint st pose =
             (st1, Inr (if eratio > cratio then (cur + 1) mod int (length (wps st)) else cur))"
proof -
  have w: "wps st1 = wps st"
    using nearest_waypoint_frame_wps [of st pose] assms(1) by simp
  have ne: "int (length (wps st)) \<noteq> 0" using assms(2,3) by linarith
  have le: "\<not> cur > int (length (wps st)) - 1" using assms(3) by linarith
  obtain e where e: "line_ratio ppt (pose_to_point pose) npt = Inr e"
    using line_ratio_distinct [OF assms(7)] by blast
  obtain c where c: "line_ratio ppt cpt npt = Inr c"
    using line_ratio_distinct [OF assms(7)] by blast
  have "next_waypoint st pose =
          (st1, Inr (if e > c then (cur + 1) mod int (length (wps st)) else cur))"
    using assms(1,2) ne le e c
    by (simp add: next_waypoint_def Let_def w assms(4,5,6) [symmetric])
  with e c show ?thesis by blast
qed


text \<open>The example on the 4-waypoint track \<open>x = 0, 1, 2, 3\<close>: at \<open>x = 1.6\<close> the nearest
  waypoint is index 2, the ratios are \<open>0.6\<close> and 1, and index 2 (at \<open>x = 2\<close>) is returned.\<close>

theorem next_waypoint_advance_witness:
  "nearest_waypoint line4_node (pose_at (8 / 5) 0) =
     (line4_node\<lparr>prev_pt := \<lparr>pt_x = 8 / 5, pt_y = 0, pt_z = 0\<rparr>, prev_index := 2\<rparr>, Inr 2)
   \<and> (0 :: int) \<le> 2 \<and> 2 < int (length (wps line4_node))
   \<and> waypoint_to_point (wps line4_node ! nat ((2 + int (length (wps line4_node)) - 1) mod int (length (wps line4_node))))
       \<noteq> waypoint_to_point (wps line4_node ! nat ((2 + 1) mod int (length (wps line4_node))))
   \<and> line_ratio (waypoint_to_point (wp_at 1 0)) (pose_to_point (pose_at (8 / 5) 0))
         (waypoint_to_point (wp_at 3 0)) = Inr (3 / 5)
   \<and> line_ratio (waypoint_to_point (wp_at 1 0)) (waypoint_to_point (wp_at 2 0))
         (waypoint_to_point (wp_at 3 0)) = Inr 1
   \<and> next_waypoint line4_node (pose_at (8 / 5) 0) =
       (line4_node\<lparr>prev_pt := \<lparr>pt_x = 8 / 5, pt_y = 0, pt_z = 0\<rparr>, prev_index := 2\<rparr>, Inr 2)
   \<and> wps line4_node ! 2 = wp_at 2 0"
proof -
  let ?n = "int (length (wps line4_node))"
  let ?P = "waypoint_to_point (wps line4_node ! nat ((2 + ?n - 1) mod ?n))"
  let ?N = "waypoint_to_point (wps line4_node ! nat ((2 + 1) mod ?n))"
  let ?C = "waypoint_to_point (wps line4_node ! nat 2)"
  have b: "(0 :: int) \<le> 2" "2 < ?n" by (simp_all add: line4_node_eq line4_def)
  have P: "?P = waypoint_to_point (wp_at 1 0)" by (simp add: line4_node_eq line4_def)
  have N: "?N = waypoint_to_point (wp_at 3 0)" by (simp add: line4_node_eq line4_def)
  have C: "?C = waypoint_to_point (wp_at 2 0)" by (simp add: line4_node_eq line4_def)
  have d: "?P \<noteq> ?N" unfolding P N by (simp add: wp_at_def waypoint_to_point_def)
  have e: "line_ratio (waypoint_to_point (wp_at 1 0)) (pose_to_point (pose_at (8 / 5) 0))
         (waypoint_to_point (wp_at 3 0)) = Inr (3 / 5)"
    by (simp add: track_eval)
  have c: "line_ratio (waypoint_to_point (wp_at 1 0)) (waypoint_to_point (wp_at 2 0))
         (waypoint_to_point (wp_at 3 0)) = Inr 1"
    by (simp add: track_eval)
  from next_waypoint_advance [OF nearest_line4 b refl refl refl d]
  obtain er cr where
    "line_ratio ?P (pose_to_point (pose_at (8 / 5) 0)) ?N = Inr er"
    "line_ratio ?P ?C ?N = Inr cr"
    and r: "next_waypoint line4_node (pose_at (8 / 5) 0) =
       (line4_node\<lparr>prev_pt := \<lparr>pt_x = 8 / 5, pt_y = 0, pt_z = 0\<rparr>, prev_index := 2\<rparr>,
        Inr (if er > cr then (2 + 1) mod ?n else 2))"
    by blast
  then have "er = 3 / 5" "cr = 1" using e c unfolding P N C by simp_all
  with r have "next_waypoint line4_node (pose_at (8 / 5) 0) =
       (line4_node\<lparr>prev_pt := \<lparr>pt_x = 8 / 5, pt_y = 0, pt_z = 0\<rparr>, prev_index := 2\<rparr>, Inr 2)"
    by simp
  moreover have "wps line4_node ! 2 = wp_at 2 0" by (simp add: line4_node_eq line4_def)
  ultimately show ?thesis using nearest_line4 b d e c by (intro conjI)
qed

section \<open>Lookahead publisher: claims\<close>

text \<open>
  Claim C1, as stated, fails on a track shorter than 240 waypoints: the wrapped part is
  cut at the track length, not at what is left of the track, so waypoints repeat. On
  the 4-waypoint track with next-waypoint index 2 the published window has 6
  waypoints, not \<open>min 240 4 = 4\<close>.
\<close>

theorem pose_cb_short_track_counterexample:
  "length (wps line4_node) = 4
   \<and> trace (fst (pose_cb line4_node (pose_at (8 / 5) 0))) =
       [Info_waypoints 4 1,
        Pub_final_waypoints [wp_at 2 0, wp_at 3 0, wp_at 0 0, wp_at 1 0, wp_at 2 0, wp_at 3 0],
        Pub_next_waypoint 2]
   \<and> length [wp_at 2 0, wp_at 3 0, wp_at 0 0, wp_at 1 0, wp_at 2 0, wp_at 3 0] = 6
   \<and> min 240 (length (wps line4_node)) = 4"
proof -
  have "trace line4_tracked =
       [Info_waypoints 4 1,
        Pub_final_waypoints [wp_at 2 0, wp_at 3 0, wp_at 0 0, wp_at 1 0, wp_at 2 0, wp_at 3 0],
        Pub_next_waypoint 2]"
    by (simp add: line4_tracked_eq)
  then have t: "trace (fst (pose_cb line4_node (pose_at (8 / 5) 0))) =
       [Info_waypoints 4 1,
        Pub_final_waypoints [wp_at 2 0, wp_at 3 0, wp_at 0 0, wp_at 1 0, wp_at 2 0, wp_at 3 0],
        Pub_next_waypoint 2]"
    unfolding line4_tracked_def .
  have l: "length (wps line4_node) = 4" by (simp add: line4_node_eq line4_def)
  from t l show ?thesis by simp
qed

text \<open>
  Claim C1, amended. For a pose message on a loaded track for which the tracker
  returns a next-waypoint index \<open>np \<ge> 0\<close>, the node records \<open>np\<close> and publishes the
  window and then \<open>np\<close>. The window is \<^verbatim>\<open>wps[np:np+240]\<close> followed by
  \<^verbatim>\<open>wps[:np+240-len]\<close>: its waypoint \<open>i\<close> is waypoint \<open>(np + i) mod len\<close> of the track, so
  it is the contiguous slice from \<open>np\<close> that wraps past the end to the start. On a
  track of at least 240 waypoints it has exactly 240 waypoints; it has fewer than 240
  only if the track has fewer than 240. In general its length is
  \<open>min 240 (len - np) + min len (np + 240 - len)\<close>, which on a shorter track exceeds
  the track length.
\<close>

theorem pose_cb_window:
  assumes "wps st \<noteq> []" and "next_waypoint st msg = (st1, Inr np)" and "0 \<le> np"
  shows "pose_cb st msg =
           (emit (Pub_next_waypoint np)
              (emit (Pub_final_waypoints (lookahead_window (wps st) np)) (st1\<lparr>next_pt := np\<rparr>)),
            None)
       \<and> lookahead_window (wps st) np =
           take 240 (drop (nat np) (wps st)) @ take (nat np + 240 - length (wps st)) (wps st)
       \<and> (\<forall>i < length (lookahead_window (wps st) np).
             lookahead_window (wps st) np ! i = wps st ! ((nat np + i) mod length (wps st)))
       \<and> length (lookahead_window (wps st) np) =
           min 240 (length (wps st) - nat np) + min (length (wps st)) (nat np + 240 - length (wps st))
       \<and> (240 \<le> length (wps st) \<longrightarrow> length (lookahead_window (wps st) np) = 240)
       \<and> (length (lookahead_window (wps st) np) < 240 \<longrightarrow> length (wps st) < 240)"
proof -
  have rng: "wps st1 = wps st" "np < int (length (wps st))"
    using next_waypoint_range [OF assms(2)] assms(3) by auto
  then have n: "nat np < length (wps st)" using assms(3) by linarith
  have cb: "pose_cb st msg =
           (emit (Pub_next_waypoint np)
              (emit (Pub_final_waypoints (lookahead_window (wps st) np)) (st1\<lparr>next_pt := np\<rparr>)),
            None)"
    using assms rng(1) by (simp add: pose_cb_def Let_def)
  have eq: "lookahead_window (wps st) np =
           take 240 (drop (nat np) (wps st)) @ take (nat np + 240 - length (wps st)) (wps st)"
    using assms(3) rng(2) by (rule lookahead_window_eq)
  have nth: "\<forall>i < length (lookahead_window (wps st) np).
             lookahead_window (wps st) np ! i = wps st ! ((nat np + i) mod length (wps st))"
    unfolding eq using nth_window [OF n] by blast
  have len: "length (lookahead_window (wps st) np) =
           min 240 (length (wps st) - nat np) + min (length (wps st)) (nat np + 240 - length (wps st))"
    unfolding eq using length_window [OF n] by simp
  have full: "240 \<le> length (wps st) \<longrightarrow> length (lookahead_window (wps st) np) = 240"
    unfolding len using n by (auto simp: min_def)
  have few: "length (lookahead_window (wps st) np) < 240 \<longrightarrow> length (wps st) < 240"
    unfolding len using n by (auto simp: min_def)
  from cb eq nth len full few show ?thesis by (intro conjI)
qed

text \<open>The example of the claim: a track of 300 waypoints, next-waypoint index 200; the
  window is \<^verbatim>\<open>track[200:300]\<close> followed by \<^verbatim>\<open>track[0:140]\<close>, 240 waypoints.\<close>

theorem pose_cb_window_witness:
  "wps track300_node \<noteq> []
   \<and> next_waypoint track300_node (pose_at (998 / 5) 0) =
       (fst (next_waypoint track300_node (pose_at (998 / 5) 0)), Inr 200)
   \<and> (0 :: int) \<le> 200
   \<and> 240 \<le> length (wps track300_node)
   \<and> pose_cb track300_node (pose_at (998 / 5) 0) =
       (emit (Pub_next_waypoint 200)
          (emit (Pub_final_waypoints (drop 200 track300 @ take 140 track300))
             ((fst (next_waypoint track300_node (pose_at (998 / 5) 0)))\<lparr>next_pt := 200\<rparr>)),
        None)
   \<and> length (drop 200 track300 @ take 140 track300) = 240
   \<and> (drop 200 track300 @ take 140 track300) ! 100 = track300 ! 0"
proof -
  let ?st1 = "fst (next_waypoint track300_node (pose_at (998 / 5) 0))"
  have a: "wps track300_node \<noteq> []"
    using track300_length by (auto simp add: track300_node_fields)
  have b: "next_waypoint track300_node (pose_at (998 / 5) 0) = (?st1, Inr 200)"
    using track300_next by (metis prod.collapse)
  have c: "(0 :: int) \<le> 200" by simp
  have d: "240 \<le> length (wps track300_node)"
    by (simp add: track300_node_fields track300_length)
  have w: "take 240 (drop (nat 200) (wps track300_node))
           @ take (nat 200 + 240 - length (wps track300_node)) (wps track300_node)
           = drop 200 track300 @ take 140 track300"
    by (simp add: track300_node_fields track300_length)
  note t = pose_cb_window [OF a b c]
  have cb: "pose_cb track300_node (pose_at (998 / 5) 0) =
       (emit (Pub_next_waypoint 200)
          (emit (Pub_final_waypoints (drop 200 track300 @ take 140 track300))
             (?st1\<lparr>next_pt := 200\<rparr>)), None)"
    using t w by simp
  have len: "length (drop 200 track300 @ take 140 track300) = 240"
    by (simp add: track300_length)
  have "(100 :: nat) < length (lookahead_window (wps track300_node) 200)"
    using t d by simp
  with t have "lookahead_window (wps track300_node) 200 ! 100
        = wps track300_node ! ((nat 200 + 100) mod length (wps track300_node))"
    by blast
  then have nth: "(drop 200 track300 @ take 140 track300) ! 100 = track300 ! 0"
    using t w by (simp add: track300_node_fields track300_length)
  from a b c d cb len nth show ?thesis by (intro conjI)
qed

section \<open>Traffic-light distance relay: claims\<close>

text \<open>
  Claim C3. For a traffic-light message whose decoded magnitude and the tracker's last
  next-waypoint index are both valid indices of the arc-length table, the relay
  publishes sign times dist, where dist is the table entry at the magnitude minus the
  entry at the last next-waypoint index, plus the loop length (the entry at the track
  length) when the difference is negative. It holds in every state the node can reach.
\<close>

theorem traffic_cb_distance:
  assumes "reachable st"
    and "0 \<le> next_pt st" and "next_pt st < int (length (wp_ss st))"
    and "\<bar>d\<bar> < int (length (wp_ss st))"
  shows "traffic_cb st d =
     (emit (Pub_tl_distance
        ((if d < 0 then - 1 else 1) *
         (let dist = wp_ss st ! nat \<bar>d\<bar> - wp_ss st ! nat (next_pt st)
          in if dist < 0 then dist + wp_ss st ! length (wps st) else dist))) st, None)"
proof -
  have sz: "length (wps st) < length (wp_ss st)"
    using reachable_table [OF assms(1)] assms(2,3) by auto
  show ?thesis
  proof (cases "d < 0")
    case True
    with assms have "py_get (wp_ss st) (- d) = Inr (wp_ss st ! nat \<bar>d\<bar>)"
      by (simp add: py_get_in)
    with True assms sz show ?thesis
      by (simp add: traffic_cb_def Let_def py_get_in)
  next
    case False
    with assms have "py_get (wp_ss st) d = Inr (wp_ss st ! nat \<bar>d\<bar>)"
      by (simp add: py_get_in)
    with False assms sz show ?thesis
      by (simp add: traffic_cb_def Let_def py_get_in)
  qed
qed

text \<open>The example of the claim: loop length 1000, vehicle at arc length 950, light at
  arc length 50, red light: the relay publishes 100.\<close>

theorem traffic_cb_distance_witness:
  "reachable rect6_tracked \<and> 0 \<le> next_pt rect6_tracked
   \<and> next_pt rect6_tracked < int (length (wp_ss rect6_tracked))
   \<and> \<bar>1 :: int\<bar> < int (length (wp_ss rect6_tracked))
   \<and> wp_ss rect6_tracked ! length (wps rect6_tracked) = 1000
   \<and> wp_ss rect6_tracked ! nat (next_pt rect6_tracked) = 950
   \<and> wp_ss rect6_tracked ! 1 = 50
   \<and> traffic_cb rect6_tracked 1 = (emit (Pub_tl_distance 100) rect6_tracked, None)"
proof -
  have a: "0 \<le> next_pt rect6_tracked" by (simp add: rect6_tracked_eq)
  have b: "next_pt rect6_tracked < int (length (wp_ss rect6_tracked))"
    by (simp add: rect6_tracked_eq)
  have c: "\<bar>1 :: int\<bar> < int (length (wp_ss rect6_tracked))" by (simp add: rect6_tracked_eq)
  have "traffic_cb rect6_tracked 1 = (emit (Pub_tl_distance 100) rect6_tracked, None)"
    using traffic_cb_distance [OF reachable_rect6_tracked a b c]
    by (simp add: rect6_tracked_eq rect6_def)
  with a b c reachable_rect6_tracked show ?thesis
    by (simp add: rect6_tracked_eq rect6_def)
qed

text \<open>
  Claim C10. The relay reads the arc-length table at the decoded magnitude without a
  bounds check: when the tracker holds a next-waypoint index (\<open>next_pt \<ge> 0\<close>) and the
  magnitude is past the last index of the table, the callback raises IndexError and
  leaves the node as it was, nothing published.
\<close>

theorem traffic_cb_out_of_range:
  assumes "0 \<le> next_pt st" and "int (length (wp_ss st)) \<le> \<bar>d\<bar>"
  shows "traffic_cb st d = (st, Some IndexError)"
  using assms by (cases "d < 0") (simp_all add: traffic_cb_def Let_def py_get_out)

theorem traffic_cb_out_of_range_witness:
  "0 \<le> next_pt rect6_tracked \<and> int (length (wp_ss rect6_tracked)) \<le> \<bar>7\<bar>
   \<and> traffic_cb rect6_tracked 7 = (rect6_tracked, Some IndexError)"
proof -
  have a: "0 \<le> next_pt rect6_tracked" by (simp add: rect6_tracked_eq)
  have b: "int (length (wp_ss rect6_tracked)) \<le> \<bar>7\<bar>" by (simp add: rect6_tracked_eq)
  from traffic_cb_out_of_range [OF a b] a b show ?thesis by simp
qed

text \<open>
  Claim C6. Without a tracked next-waypoint index the relay multiplies the sentinel
  \<open>-1.0\<close> by the decoded sign. For a red-light input it publishes \<open>-1.0\<close>, but for a
  negative input, here \<open>-5\<close> on the fresh node, it publishes \<open>+1.0\<close>: the published
  value is not negative regardless of the input's sign.
\<close>

theorem traffic_cb_no_index_sign:
  "traffic_cb init_node (- 5) = (emit (Pub_tl_distance 1) init_node, None)
   \<and> traffic_cb init_node 5 = (emit (Pub_tl_distance (- 1)) init_node, None)"
  by (simp add: traffic_cb_def init_node_def Let_def)

section \<open>Events before any track is loaded: claim\<close>

text \<open>
  Claim C5, as stated, fails: a traffic-light message that arrives on the fresh node is
  not ignored, the relay publishes the sentinel on the distance channel.
\<close>

theorem traffic_cb_before_track_counterexample:
  "wps init_node = [] \<and> trace init_node = []
   \<and> trace (fst (traffic_cb init_node 5)) = [Pub_tl_distance (- 1)]"
  by (simp add: traffic_cb_def init_node_def emit_def Let_def)

text \<open>
  Claim C5, amended. Before any track is loaded, a pose message leaves the node as it
  was and publishes nothing; a traffic-light message with a non-negative payload is
  not ignored: the relay publishes the sentinel \<open>-1.0\<close> on the distance channel and
  changes nothing else.
\<close>

theorem events_before_track:
  assumes "unloaded st" and "0 \<le> d"
  shows "pose_cb st msg = (st, None)
         \<and> traffic_cb st d = (emit (Pub_tl_distance (- 1)) st, None)"
  using unloaded_fresh [OF assms(1)] assms(2)
  by (simp add: pose_cb_def traffic_cb_def Let_def)

theorem events_before_track_witness:
  "unloaded init_node \<and> (0 :: int) \<le> 5
   \<and> pose_cb init_node (pose_at 0 0) = (init_node, None)
   \<and> traffic_cb init_node 5 = (emit (Pub_tl_distance (- 1)) init_node, None)"
  using events_before_track [OF un_init, of 5 "pose_at 0 0"] un_init by simp

end
